theory Spec2Isabelle
  imports Complex_Main "HOL-Library.Sublist"
begin

unbundle bit_operations_syntax

section \<open>Data model\<close>

text \<open>
  Modelled from the spec: the declaration of \<open>EntityDefinitionClassType\<close> lives in
  \<open>io/EntityDefinitionClassInfo.h\<close>, which is not among the sources. The three kinds
  are PointClass, BrushClass and BaseClass; \<open>typeIndex\<close> is the enumerator value that
  \<open>static_cast<int>(type)\<close> reads, in declaration order.
\<close>

datatype EntityDefinitionClassType = PointClass | BrushClass | BaseClass

fun typeIndex :: "EntityDefinitionClassType \<Rightarrow> nat" where
  "typeIndex PointClass = 0"
| "typeIndex BrushClass = 1"
| "typeIndex BaseClass = 2"

text \<open>
  Modelled from the spec: a source position, "an opaque source-position token supplied by
  the upstream parser and carried through unmodified".
\<close>

record FileLocation =
  line :: nat
  column :: "nat option"

text \<open>
  Modelled from the spec: colours and bounding boxes are opaque values that resolution only
  copies. \<open>bbox3d_fill lo hi\<close> is the constructor \<open>vm::bbox3d(lo, hi)\<close> that fills
  every axis with the same bounds.
\<close>

datatype Color = Color real real real real

datatype vec3d = vec3d real real real

datatype bbox3d = bbox3d vec3d vec3d

definition bbox3d_fill :: "real \<Rightarrow> real \<Rightarrow> bbox3d" where
  "bbox3d_fill lo hi = bbox3d (vec3d lo lo lo) (vec3d hi hi hi)"

definition DefaultSize :: bbox3d where
  "DefaultSize = bbox3d_fill (- 8) 8"

text \<open>
  Modelled from the spec: model and decal definitions are "optional composite expressions"
  with an \<open>append\<close> operation "that concatenates alternative expressions without discarding
  either side". A definition is the list of its alternatives; the default-constructed
  definition has none.
\<close>

datatype ModelDefinition = ModelDefinition "string list"

datatype DecalDefinition = DecalDefinition "string list"

fun appendModel :: "ModelDefinition \<Rightarrow> ModelDefinition \<Rightarrow> ModelDefinition" where
  "appendModel (ModelDefinition xs) (ModelDefinition ys) = ModelDefinition (xs @ ys)"

fun appendDecal :: "DecalDefinition \<Rightarrow> DecalDefinition \<Rightarrow> DecalDefinition" where
  "appendDecal (DecalDefinition xs) (DecalDefinition ys) = DecalDefinition (xs @ ys)"

text \<open>
  Modelled from the spec: the property definition classes that \<open>mergeAttributes\<close> and
  \<open>inheritAttributes\<close> are written against (\<open>key()\<close>, \<open>type()\<close>,
  \<open>FlagsPropertyDefinition::option\<close>, \<open>addOption\<close>) are not among the sources; the
  header \<open>PropertyDefinition.h\<close> that is present declares a later interface. A property
  definition has a key, one of the closed set of value kinds, two descriptions and a
  read-only flag; a flags definition also has its options, each with a bit value, two
  descriptions and a default marker.
\<close>

datatype PropertyDefinitionType =
    TargetSourceProperty | TargetDestinationProperty | StringProperty | BooleanProperty
  | IntegerProperty | FloatProperty | ChoiceProperty | FlagsProperty | ColorProperty
  | UnknownProperty

record FlagsPropertyOption =
  "value" :: int
  shortDescription :: string
  longDescription :: string
  isDefault :: bool

record PropertyDefinition =
  key :: string
  type :: PropertyDefinitionType
  shortDescription :: string
  longDescription :: string
  readOnly :: bool
  options :: "FlagsPropertyOption list"

text \<open>
  Modelled from the spec: \<open>option v\<close> is the first option whose value is \<open>v\<close>, or
  nothing (as \<open>Flags::flag\<close> of the present header does); \<open>addOption\<close> appends an
  option; \<open>newFlagsPropertyDefinition k\<close> is the constructor taking only the key.
\<close>

definition option :: "PropertyDefinition \<Rightarrow> int \<Rightarrow> FlagsPropertyOption option" where
  "option d v = find (\<lambda>opt. value opt = v) (options d)"

definition addOption ::
  "PropertyDefinition \<Rightarrow> int \<Rightarrow> string \<Rightarrow> string \<Rightarrow> bool \<Rightarrow> PropertyDefinition" where
  "addOption d v sd ld dflt =
     d\<lparr>options := options d @
        [\<lparr>value = v, shortDescription = sd, longDescription = ld, isDefault = dflt\<rparr>]\<rparr>"

definition newFlagsPropertyDefinition :: "string \<Rightarrow> PropertyDefinition" where
  "newFlagsPropertyDefinition k =
     \<lparr>key = k, type = FlagsProperty, shortDescription = [], longDescription = [],
      readOnly = False, options = []\<rparr>"

text \<open>
  Modelled from the spec: \<open>EntityPropertyKeys::Spawnflags\<close>, the "reserved spawnflags
  identifier".
\<close>

definition Spawnflags :: string where
  "Spawnflags = ''spawnflags''"

text \<open>
  Modelled from the spec: \<open>EntityDefinitionClassInfo\<close> (section 3, ClassInfo). The field
  \<open>size\<close> is named \<open>size_box\<close> here.
\<close>

record EntityDefinitionClassInfo =
  type :: EntityDefinitionClassType
  location :: FileLocation
  name :: string
  description :: "string option"
  color :: "Color option"
  size_box :: "bbox3d option"
  propertyDefinitions :: "PropertyDefinition list"
  modelDefinition :: "ModelDefinition option"
  decalDefinition :: "DecalDefinition option"
  superClasses :: "string list"

text \<open>
  Modelled from the spec: the diagnostics sink "accepts \<open>warn(location, message)\<close> and
  \<open>error(location, message)\<close> calls". The sink is the list of what it was told, oldest
  first.
\<close>

datatype LogLevel = Warn | Error

type_synonym ParserStatus = "(LogLevel \<times> FileLocation \<times> string) list"

definition warn :: "ParserStatus \<Rightarrow> FileLocation \<Rightarrow> string \<Rightarrow> ParserStatus" where
  "warn status loc msg = status @ [(Warn, loc, msg)]"

definition error :: "ParserStatus \<Rightarrow> FileLocation \<Rightarrow> string \<Rightarrow> ParserStatus" where
  "error status loc msg = status @ [(Error, loc, msg)]"

definition quoted :: "string \<Rightarrow> string" where
  "quoted s = CHR 0x27 # s @ [CHR 0x27]"

section \<open>Attribute merge policy\<close>

text \<open>
  One round of the loop of \<open>mergeAttributes\<close>: bit \<open>1 << i\<close> takes the super class's
  option when only the super class has one, else the inheriting class's when it has one.
\<close>

definition mergeFlag ::
  "PropertyDefinition \<Rightarrow> PropertyDefinition \<Rightarrow> PropertyDefinition \<Rightarrow> nat \<Rightarrow> PropertyDefinition"
  where
  "mergeFlag classFlags baseclassFlags result i =
     (let baseclassFlag = option baseclassFlags (push_bit i 1);
          classFlag = option classFlags (push_bit i 1)
      in if baseclassFlag \<noteq> None \<and> classFlag = None then
           (case baseclassFlag of
              Some f \<Rightarrow> addOption result (value f) (FlagsPropertyOption.shortDescription f)
                          (FlagsPropertyOption.longDescription f) (isDefault f)
            | None \<Rightarrow> result)
         else
           (case classFlag of
              Some f \<Rightarrow> addOption result (value f) (FlagsPropertyOption.shortDescription f)
                          (FlagsPropertyOption.longDescription f) (isDefault f)
            | None \<Rightarrow> result))"

definition mergeAttributes ::
  "PropertyDefinition \<Rightarrow> PropertyDefinition \<Rightarrow> PropertyDefinition option" where
  "mergeAttributes inheritingClassAttribute superClassAttribute =
     (if PropertyDefinition.type superClassAttribute = FlagsProperty
         \<and> PropertyDefinition.type inheritingClassAttribute = FlagsProperty
         \<and> key superClassAttribute = Spawnflags
         \<and> key inheritingClassAttribute = Spawnflags
      then Some (foldl (mergeFlag inheritingClassAttribute superClassAttribute)
                   (newFlagsPropertyDefinition (key inheritingClassAttribute)) [0..<24])
      else None)"

text \<open>
  The body of the property loop of \<open>inheritAttributes\<close> for one super-class property:
  walk to the first property of the inheriting class with the same key
  (\<open>std::ranges::find_if\<close>); at the end of the list push the property back, at a hit
  replace the hit by the merged property when \<open>mergeAttributes\<close> returns one.
\<close>

fun inheritProperty ::
  "PropertyDefinition list \<Rightarrow> PropertyDefinition \<Rightarrow> PropertyDefinition list" where
  "inheritProperty [] attribute = [attribute]"
| "inheritProperty (a # as) attribute =
     (if key a = key attribute then
        (case mergeAttributes a attribute of
           Some mergedAttribute \<Rightarrow> mergedAttribute # as
         | None \<Rightarrow> a # as)
      else a # inheritProperty as attribute)"

definition inheritAttributes ::
  "EntityDefinitionClassInfo \<Rightarrow> EntityDefinitionClassInfo \<Rightarrow> EntityDefinitionClassInfo" where
  "inheritAttributes inheritingClass superClass =
     inheritingClass
       \<lparr>description :=
          (case description inheritingClass of
             None \<Rightarrow> description superClass | Some d \<Rightarrow> Some d),
        color :=
          (case color inheritingClass of None \<Rightarrow> color superClass | Some c \<Rightarrow> Some c),
        size_box :=
          (case size_box inheritingClass of
             None \<Rightarrow> size_box superClass | Some s \<Rightarrow> Some s),
        propertyDefinitions :=
          foldl inheritProperty (propertyDefinitions inheritingClass)
            (propertyDefinitions superClass),
        modelDefinition :=
          (case modelDefinition inheritingClass of
             None \<Rightarrow> modelDefinition superClass
           | Some m \<Rightarrow>
               (case modelDefinition superClass of
                  None \<Rightarrow> Some m | Some m' \<Rightarrow> Some (appendModel m m'))),
        decalDefinition :=
          (case decalDefinition inheritingClass of
             None \<Rightarrow> decalDefinition superClass
           | Some d \<Rightarrow>
               (case decalDefinition superClass of
                  None \<Rightarrow> Some d | Some d' \<Rightarrow> Some (appendDecal d d')))\<rparr>"

section \<open>Redundancy filter\<close>

definition getMask :: "EntityDefinitionClassType \<Rightarrow> int" where
  "getMask t = push_bit (typeIndex t) 1"

definition baseClassMask :: int where
  "baseClassMask = getMask BaseClass"

text \<open>
  The loop of \<open>filterRedundantClasses\<close>. \<open>seen\<close> is the \<open>unordered_map\<close> from names
  to masks; \<open>seen[name]\<close> creates the entry with mask 0 when the name is new.
\<close>

fun filterLoop ::
  "(string \<rightharpoonup> int) \<Rightarrow> ParserStatus \<Rightarrow> EntityDefinitionClassInfo list \<Rightarrow>
   EntityDefinitionClassInfo list \<Rightarrow> ParserStatus \<times> EntityDefinitionClassInfo list" where
  "filterLoop seen status result [] = (status, result)"
| "filterLoop seen status result (classInfo # classInfos) =
     (let seenMask = (case seen (name classInfo) of None \<Rightarrow> 0 | Some m \<Rightarrow> m);
          classMask = getMask (EntityDefinitionClassInfo.type classInfo)
      in if classMask AND seenMask \<noteq> 0 then
           filterLoop (seen(name classInfo \<mapsto> seenMask))
             (warn status (location classInfo)
                (''Duplicate class info '' @ quoted (name classInfo)))
             result classInfos
         else if seenMask AND baseClassMask \<noteq> 0
                 \<or> (seenMask \<noteq> 0 \<and> classMask AND baseClassMask \<noteq> 0) then
           filterLoop (seen(name classInfo \<mapsto> seenMask))
             (warn status (location classInfo)
                (''Redundant class info '' @ quoted (name classInfo)))
             result classInfos
         else
           filterLoop (seen(name classInfo \<mapsto> seenMask OR classMask)) status
             (result @ [classInfo]) classInfos)"

definition filterRedundantClasses ::
  "ParserStatus \<Rightarrow> EntityDefinitionClassInfo list \<Rightarrow>
   ParserStatus \<times> EntityDefinitionClassInfo list" where
  "filterRedundantClasses status classInfos = filterLoop Map.empty status [] classInfos"

section \<open>Super-class selector\<close>

text \<open>
  \<open>findClassInfos\<close> is the lookup that \<open>resolveInheritance\<close> builds over the
  filtered list; \<open>findClassInfoWithType\<close> and \<open>selectSuperClass\<close> are the two
  local functions of \<open>findSuperClassesAndInheritFrom\<close>, with the inheriting class they
  capture as an argument.
\<close>

definition findClassInfos ::
  "EntityDefinitionClassInfo list \<Rightarrow> string \<Rightarrow> EntityDefinitionClassInfo list" where
  "findClassInfos filteredClassInfos n = filter (\<lambda>c. name c = n) filteredClassInfos"

definition findClassInfoWithType ::
  "EntityDefinitionClassInfo list \<Rightarrow> EntityDefinitionClassType \<Rightarrow>
   EntityDefinitionClassInfo option" where
  "findClassInfoWithType classes t = find (\<lambda>c. EntityDefinitionClassInfo.type c = t) classes"

definition selectSuperClass ::
  "EntityDefinitionClassInfo \<Rightarrow> EntityDefinitionClassInfo list \<Rightarrow>
   EntityDefinitionClassInfo option" where
  "selectSuperClass inheritingClass potentialSuperClasses =
     (if length potentialSuperClasses = 1 then Some (hd potentialSuperClasses)
      else if length potentialSuperClasses > 1 then
        (case findClassInfoWithType potentialSuperClasses
                (EntityDefinitionClassInfo.type inheritingClass) of
           Some classInfo \<Rightarrow> Some classInfo
         | None \<Rightarrow>
             (if EntityDefinitionClassInfo.type inheritingClass \<noteq> BaseClass then
                findClassInfoWithType potentialSuperClasses BaseClass
              else None))
      else None)"

lemma selectSuperClass_mem:
  "selectSuperClass inh xs = Some c \<Longrightarrow> c \<in> set xs"
  by (cases xs) (auto simp: selectSuperClass_def findClassInfoWithType_def find_Some_iff
      split: if_splits option.splits)

lemma selectSuperClass_find_name:
  "selectSuperClass inh (findClassInfos cs n) = Some c \<Longrightarrow> c \<in> set cs \<and> name c = n"
  by (drule selectSuperClass_mem) (simp add: findClassInfos_def)

section \<open>Inheritance resolver\<close>

text \<open>
  The walk always ends: every class it descends into comes from the filtered list and its
  name is new on the current path, so the number of names of the list that are not on the
  path goes down.
\<close>

definition walkMeasure :: "EntityDefinitionClassInfo list \<Rightarrow> string set \<Rightarrow> nat" where
  "walkMeasure cs visited = card (name ` set cs - visited)"

lemma walkMeasure_insert:
  "c \<in> set cs \<Longrightarrow> name c \<notin> visited \<Longrightarrow>
   walkMeasure cs (insert (name c) visited) < walkMeasure cs visited"
  unfolding walkMeasure_def
  by (intro psubset_card_mono) auto

lemma walkMeasure_insert_le:
  "walkMeasure cs (insert n visited) \<le> walkMeasure cs visited"
  unfolding walkMeasure_def
  by (intro card_mono) auto

definition walkRank ::
  "(EntityDefinitionClassInfo list \<times> (ParserStatus \<times> EntityDefinitionClassInfo) \<times>
      EntityDefinitionClassInfo \<times> string set) +
   (EntityDefinitionClassInfo list \<times> (ParserStatus \<times> EntityDefinitionClassInfo) \<times>
      EntityDefinitionClassInfo \<times> string set) +
   (EntityDefinitionClassInfo list \<times> (ParserStatus \<times> EntityDefinitionClassInfo) \<times>
      FileLocation \<times> string list \<times> string set) \<Rightarrow> nat \<times> nat" where
  "walkRank x =
     (case x of
        Inl (cs, s, sc, visited) \<Rightarrow>
          (if name sc \<in> visited then (0, 0)
           else if sc \<in> set cs then (walkMeasure cs visited, 0)
           else (Suc (walkMeasure cs visited), 0))
      | Inr (Inl (cs, s, c, visited)) \<Rightarrow>
          (walkMeasure cs visited, Suc (Suc (length (superClasses c))))
      | Inr (Inr (cs, s, loc, ns, visited)) \<Rightarrow> (walkMeasure cs visited, Suc (length ns)))"

text \<open>
  The mutual recursion of \<open>inheritFromAndRecurse\<close> and
  \<open>findSuperClassesAndInheritFrom\<close>. The state is the status sink and the inheriting
  class, both passed by reference in the source. \<open>visited\<close> is passed by value: the
  source inserts the name, recurses and erases the name again. \<open>inheritFromEach\<close> is
  the \<open>for\<close> loop of \<open>findSuperClassesAndInheritFrom\<close> over the names that are
  left, with the location of the class that declares them.
\<close>

function
  inheritFromAndRecurse ::
    "EntityDefinitionClassInfo list \<Rightarrow> ParserStatus \<times> EntityDefinitionClassInfo \<Rightarrow>
     EntityDefinitionClassInfo \<Rightarrow> string set \<Rightarrow> ParserStatus \<times> EntityDefinitionClassInfo"
  and findSuperClassesAndInheritFrom ::
    "EntityDefinitionClassInfo list \<Rightarrow> ParserStatus \<times> EntityDefinitionClassInfo \<Rightarrow>
     EntityDefinitionClassInfo \<Rightarrow> string set \<Rightarrow> ParserStatus \<times> EntityDefinitionClassInfo"
  and inheritFromEach ::
    "EntityDefinitionClassInfo list \<Rightarrow> ParserStatus \<times> EntityDefinitionClassInfo \<Rightarrow>
     FileLocation \<Rightarrow> string list \<Rightarrow> string set \<Rightarrow>
     ParserStatus \<times> EntityDefinitionClassInfo"
where
  "inheritFromAndRecurse cs (status, inheritingClass) superClass visited =
     (if name superClass \<notin> visited then
        findSuperClassesAndInheritFrom cs
          (status, inheritAttributes inheritingClass superClass) superClass
          (insert (name superClass) visited)
      else
        (error status (location inheritingClass)
           ''Entity definition class hierarchy contains a cycle'', inheritingClass))"
| "findSuperClassesAndInheritFrom cs (status, inheritingClass) classWithSuperClasses visited =
     inheritFromEach cs (status, inheritingClass) (location classWithSuperClasses)
       (superClasses classWithSuperClasses) visited"
| "inheritFromEach cs (status, inheritingClass) loc [] visited = (status, inheritingClass)"
| "inheritFromEach cs (status, inheritingClass) loc (nextSuperClassName # rest) visited =
     inheritFromEach cs
       (case selectSuperClass inheritingClass (findClassInfos cs nextSuperClassName) of
          Some nextSuperClass \<Rightarrow>
            inheritFromAndRecurse cs (status, inheritingClass) nextSuperClass visited
        | None \<Rightarrow>
            (error status loc
               (''No matching super class found for '' @ quoted nextSuperClassName),
             inheritingClass))
       loc rest visited"
  by pat_completeness auto

termination
proof (relation "inv_image (less_than <*lex*> less_than) walkRank")
  show "wf (inv_image (less_than <*lex*> less_than) walkRank)"
    by (intro wf_inv_image wf_lex_prod wf_less_than)
next
  fix cs :: "EntityDefinitionClassInfo list" and status :: ParserStatus
    and inheritingClass superClass :: EntityDefinitionClassInfo and visited :: "string set"
  assume "name superClass \<notin> visited"
  then show "(Inr (Inl (cs, (status, inheritAttributes inheritingClass superClass), superClass,
                 insert (name superClass) visited)),
              Inl (cs, (status, inheritingClass), superClass, visited))
             \<in> inv_image (less_than <*lex*> less_than) walkRank"
    using walkMeasure_insert [of superClass cs visited]
      walkMeasure_insert_le [of cs "name superClass" visited]
    by (auto simp: walkRank_def)
qed (auto simp: walkRank_def dest!: selectSuperClass_find_name)


text \<open>
  The template \<open>resolveInheritance(status, inheritingClass, findClassInfos)\<close>: the
  inheriting class is its own class with super classes, the path starts empty.
\<close>

definition resolveInheritanceClass ::
  "EntityDefinitionClassInfo list \<Rightarrow> ParserStatus \<Rightarrow> EntityDefinitionClassInfo \<Rightarrow>
   ParserStatus \<times> EntityDefinitionClassInfo" where
  "resolveInheritanceClass cs status inheritingClass =
     findSuperClassesAndInheritFrom cs (status, inheritingClass) inheritingClass {}"

text \<open>
  The exported \<open>resolveInheritance(status, classInfos)\<close>: filter, then resolve every
  class that is not a BaseClass, in order, against the filtered list.
\<close>

fun resolveEach ::
  "EntityDefinitionClassInfo list \<Rightarrow> ParserStatus \<Rightarrow> EntityDefinitionClassInfo list \<Rightarrow>
   ParserStatus \<times> EntityDefinitionClassInfo list" where
  "resolveEach cs status [] = (status, [])"
| "resolveEach cs status (c # rest) =
     (case resolveInheritanceClass cs status c of
        (status', r) \<Rightarrow>
          (case resolveEach cs status' rest of
             (status'', rs) \<Rightarrow> (status'', r # rs)))"

definition resolveInheritance ::
  "ParserStatus \<Rightarrow> EntityDefinitionClassInfo list \<Rightarrow>
   ParserStatus \<times> EntityDefinitionClassInfo list" where
  "resolveInheritance status classInfos =
     (case filterRedundantClasses status classInfos of
        (status', filteredClassInfos) \<Rightarrow>
          resolveEach filteredClassInfos status'
            (filter (\<lambda>c. EntityDefinitionClassInfo.type c \<noteq> BaseClass) filteredClassInfos))"

section \<open>Definition materializer\<close>

text \<open>
  Modelled from the spec: the classes \<open>PointEntityDefinition\<close> and
  \<open>BrushEntityDefinition\<close> are not among the sources; a definition is what its
  constructor is given in \<open>createDefinition\<close>.
\<close>

datatype EntityDefinition =
    PointEntityDefinition string Color bbox3d string "PropertyDefinition list"
      ModelDefinition DecalDefinition
  | BrushEntityDefinition string Color string "PropertyDefinition list"

definition createDefinition ::
  "EntityDefinitionClassInfo \<Rightarrow> Color \<Rightarrow> EntityDefinition option" where
  "createDefinition classInfo defaultEntityColor =
     (let name' = name classInfo;
          color' = (case color classInfo of Some c \<Rightarrow> c | None \<Rightarrow> defaultEntityColor);
          size' = (case size_box classInfo of Some s \<Rightarrow> s | None \<Rightarrow> DefaultSize);
          description' = (case description classInfo of Some d \<Rightarrow> d | None \<Rightarrow> []);
          propertyDefinitions' = propertyDefinitions classInfo;
          modelDefinition' =
            (case modelDefinition classInfo of Some m \<Rightarrow> m | None \<Rightarrow> ModelDefinition []);
          decalDefinition' =
            (case decalDefinition classInfo of Some d \<Rightarrow> d | None \<Rightarrow> DecalDefinition [])
      in case EntityDefinitionClassInfo.type classInfo of
           PointClass \<Rightarrow>
             Some (PointEntityDefinition name' color' size' description' propertyDefinitions'
                     modelDefinition' decalDefinition')
         | BrushClass \<Rightarrow>
             Some (BrushEntityDefinition name' color' description' propertyDefinitions')
         | BaseClass \<Rightarrow> None)"

text \<open>
  \<open>createDefinitions\<close> filters the class infos and hands the filtered list to the
  exported \<open>resolveInheritance\<close>, which filters once more.
\<close>

definition createDefinitions ::
  "ParserStatus \<Rightarrow> EntityDefinitionClassInfo list \<Rightarrow> Color \<Rightarrow>
   ParserStatus \<times> EntityDefinition list" where
  "createDefinitions status classInfos defaultEntityColor =
     (case filterRedundantClasses status classInfos of
        (status', filteredClassInfos) \<Rightarrow>
          (case resolveInheritance status' filteredClassInfos of
             (status'', resolvedClasses) \<Rightarrow>
               (status'',
                List.map_filter (\<lambda>classInfo. createDefinition classInfo defaultEntityColor)
                  resolvedClasses)))"




section \<open>Example data\<close>

text \<open>
  A class info with nothing set, for the concrete instances below, and the bounds a
  materialized definition carries: a point definition's third constructor argument; a
  brush definition carries none.
\<close>

definition classInfo0 ::
  "EntityDefinitionClassType \<Rightarrow> string \<Rightarrow> string list \<Rightarrow> EntityDefinitionClassInfo" where
  "classInfo0 t n supers =
     \<lparr>type = t, location = \<lparr>line = 0, column = None\<rparr>, name = n, description = None,
      color = None, size_box = None, propertyDefinitions = [], modelDefinition = None,
      decalDefinition = None, superClasses = supers\<rparr>"

fun definitionBounds :: "EntityDefinition \<Rightarrow> bbox3d option" where
  "definitionBounds (PointEntityDefinition n c s d ps m dc) = Some s"
| "definitionBounds (BrushEntityDefinition n c d ps) = None"

definition flagOption :: "int \<Rightarrow> string \<Rightarrow> FlagsPropertyOption" where
  "flagOption v d = \<lparr>value = v, shortDescription = d, longDescription = [], isDefault = False\<rparr>"

definition flagsProperty :: "string \<Rightarrow> FlagsPropertyOption list \<Rightarrow> PropertyDefinition" where
  "flagsProperty k os =
     \<lparr>key = k, type = FlagsProperty, shortDescription = [], longDescription = [],
      readOnly = False, options = os\<rparr>"

definition stringProperty :: "string \<Rightarrow> PropertyDefinition" where
  "stringProperty k =
     \<lparr>key = k, type = StringProperty, shortDescription = [], longDescription = [],
      readOnly = False, options = []\<rparr>"

lemmas eval_defs = classInfo0_def resolveInheritance_def filterRedundantClasses_def Let_def
  getMask_def baseClassMask_def resolveInheritanceClass_def findClassInfos_def
  selectSuperClass_def findClassInfoWithType_def inheritAttributes_def createDefinitions_def
  createDefinition_def warn_def error_def quoted_def DefaultSize_def bbox3d_fill_def

section \<open>The specification's reading of the property merge and of the filter\<close>

text \<open>
  The property merge in the words of the specification. \<open>mergedOptions p q\<close> goes through
  the 24 bits and takes the option of the inheriting definition \<open>p\<close> for a bit when it
  has one and the option of the super definition \<open>q\<close> otherwise. \<open>inheritedSlot qs p\<close>
  is what becomes of the property \<open>p\<close> of the inheriting class: when the super class has a
  property \<open>q\<close> of the same key and both are flags with the spawnflags key, the flags
  definition with the merged options; in every other case \<open>p\<close> itself.
\<close>

definition mergedOptions ::
  "PropertyDefinition \<Rightarrow> PropertyDefinition \<Rightarrow> FlagsPropertyOption list" where
  "mergedOptions p q =
     List.map_filter
       (\<lambda>i. case option p (2 ^ i) of Some f \<Rightarrow> Some f | None \<Rightarrow> option q (2 ^ i))
       [0..<24]"

definition inheritedSlot ::
  "PropertyDefinition list \<Rightarrow> PropertyDefinition \<Rightarrow> PropertyDefinition" where
  "inheritedSlot qs p =
     (case find (\<lambda>q. key q = key p) qs of
        None \<Rightarrow> p
      | Some q \<Rightarrow>
          if PropertyDefinition.type p = FlagsProperty \<and> PropertyDefinition.type q = FlagsProperty
             \<and> key p = Spawnflags
          then (newFlagsPropertyDefinition Spawnflags)\<lparr>options := mergedOptions p q\<rparr>
          else p)"

text \<open>
  The filter in the words of the specification: the decision for a record is taken from
  the records accepted so far.
\<close>

definition accepted ::
  "EntityDefinitionClassInfo list \<Rightarrow> string \<Rightarrow> EntityDefinitionClassType \<Rightarrow> bool" where
  "accepted acc n t = (\<exists>a \<in> set acc. name a = n \<and> EntityDefinitionClassInfo.type a = t)"

fun filterSpec ::
  "ParserStatus \<Rightarrow> EntityDefinitionClassInfo list \<Rightarrow> EntityDefinitionClassInfo list \<Rightarrow>
   ParserStatus \<times> EntityDefinitionClassInfo list" where
  "filterSpec status acc [] = (status, acc)"
| "filterSpec status acc (c # cs) =
     (if accepted acc (name c) (EntityDefinitionClassInfo.type c) then
        filterSpec (warn status (location c) (''Duplicate class info '' @ quoted (name c))) acc cs
      else if accepted acc (name c) BaseClass
              \<or> (EntityDefinitionClassInfo.type c = BaseClass
                  \<and> (\<exists>a \<in> set acc. name a = name c)) then
        filterSpec (warn status (location c) (''Redundant class info '' @ quoted (name c))) acc cs
      else filterSpec status (acc @ [c]) cs)"

definition lookupMask :: "(string \<rightharpoonup> int) \<Rightarrow> string \<Rightarrow> int" where
  "lookupMask seen n = (case seen n of None \<Rightarrow> 0 | Some m \<Rightarrow> m)"

definition mask3 :: "bool \<Rightarrow> bool \<Rightarrow> bool \<Rightarrow> int" where
  "mask3 p b s = (if p then 1 else 0) + (if b then 2 else 0) + (if s then 4 else 0)"

definition maskOf :: "EntityDefinitionClassInfo list \<Rightarrow> string \<Rightarrow> int" where
  "maskOf acc n = mask3 (accepted acc n PointClass) (accepted acc n BrushClass) (accepted acc n BaseClass)"

definition filterInvariant :: "EntityDefinitionClassInfo list \<Rightarrow> bool" where
  "filterInvariant acc \<longleftrightarrow>
     distinct (map (\<lambda>c. (name c, EntityDefinitionClassInfo.type c)) acc)
     \<and> (\<forall>c \<in> set acc. EntityDefinitionClassInfo.type c = BaseClass \<longrightarrow>
           findClassInfos acc (name c) = [c])"

definition clearSuperClasses :: "EntityDefinitionClassInfo \<Rightarrow> EntityDefinitionClassInfo" where
  "clearSuperClasses c = c\<lparr>superClasses := []\<rparr>"

text \<open>
  First writer wins: every one of description, colour and size that the first record has
  set has the same value in the second.
\<close>

definition firstWriterWins ::
  "EntityDefinitionClassInfo \<Rightarrow> EntityDefinitionClassInfo \<Rightarrow> bool" where
  "firstWriterWins a b \<longleftrightarrow>
     (description a \<noteq> None \<longrightarrow> description b = description a)
     \<and> (color a \<noteq> None \<longrightarrow> color b = color a)
     \<and> (size_box a \<noteq> None \<longrightarrow> size_box b = size_box a)"

section \<open>Facts about the walk and the pipeline\<close>

lemma inheritAttributes_fixed [simp]:
  "EntityDefinitionClassInfo.type (inheritAttributes inh sc) = EntityDefinitionClassInfo.type inh"
  "name (inheritAttributes inh sc) = name inh"
  "location (inheritAttributes inh sc) = location inh"
  "superClasses (inheritAttributes inh sc) = superClasses inh"
  by (simp_all add: inheritAttributes_def)

lemma walk_fixed:
  "EntityDefinitionClassInfo.type (snd (inheritFromAndRecurse cs s sc visited)) = EntityDefinitionClassInfo.type (snd s)
   \<and> name (snd (inheritFromAndRecurse cs s sc visited)) = name (snd s)
   \<and> location (snd (inheritFromAndRecurse cs s sc visited)) = location (snd s)
   \<and> superClasses (snd (inheritFromAndRecurse cs s sc visited)) = superClasses (snd s)
   \<and> prefix (fst s) (fst (inheritFromAndRecurse cs s sc visited))"
  "EntityDefinitionClassInfo.type (snd (findSuperClassesAndInheritFrom cs s c visited)) = EntityDefinitionClassInfo.type (snd s)
   \<and> name (snd (findSuperClassesAndInheritFrom cs s c visited)) = name (snd s)
   \<and> location (snd (findSuperClassesAndInheritFrom cs s c visited)) = location (snd s)
   \<and> superClasses (snd (findSuperClassesAndInheritFrom cs s c visited)) = superClasses (snd s)
   \<and> prefix (fst s) (fst (findSuperClassesAndInheritFrom cs s c visited))"
  "EntityDefinitionClassInfo.type (snd (inheritFromEach cs s loc ns visited)) = EntityDefinitionClassInfo.type (snd s)
   \<and> name (snd (inheritFromEach cs s loc ns visited)) = name (snd s)
   \<and> location (snd (inheritFromEach cs s loc ns visited)) = location (snd s)
   \<and> superClasses (snd (inheritFromEach cs s loc ns visited)) = superClasses (snd s)
   \<and> prefix (fst s) (fst (inheritFromEach cs s loc ns visited))"
proof (induction cs s sc visited and cs s c visited and cs s loc ns visited
    rule: inheritFromAndRecurse_findSuperClassesAndInheritFrom_inheritFromEach.induct)
  case (1 cs status inheritingClass superClass visited)
  then show ?case by (simp add: error_def)
next
  case (2 cs status inheritingClass classWithSuperClasses visited)
  then show ?case by simp
next
  case (3 cs status inheritingClass loc visited)
  then show ?case by simp
next
  case (4 cs status inheritingClass loc nextSuperClassName rest visited)
  show ?case
  proof (cases "selectSuperClass inheritingClass (findClassInfos cs nextSuperClassName)")
    case None
    with 4(2) show ?thesis
      by (auto simp: error_def dest: append_prefixD)
  next
    case (Some x)
    with 4(1)[OF Some] 4(2) show ?thesis
      by (auto intro: prefix_order.trans)
  qed
qed

lemma resolveInheritanceClass_fixed:
  "EntityDefinitionClassInfo.type (snd (resolveInheritanceClass cs st c)) = EntityDefinitionClassInfo.type c"
  "name (snd (resolveInheritanceClass cs st c)) = name c"
  "superClasses (snd (resolveInheritanceClass cs st c)) = superClasses c"
  "prefix st (fst (resolveInheritanceClass cs st c))"
  using walk_fixed(2) [of cs "(st, c)" c "{}"]
  by (simp_all add: resolveInheritanceClass_def)

lemma resolveEach_shape:
  "map EntityDefinitionClassInfo.type (snd (resolveEach cs st xs)) = map EntityDefinitionClassInfo.type xs
   \<and> map name (snd (resolveEach cs st xs)) = map name xs
   \<and> map superClasses (snd (resolveEach cs st xs)) = map superClasses xs
   \<and> prefix st (fst (resolveEach cs st xs))"
proof (induction xs arbitrary: st)
  case Nil
  show ?case by simp
next
  case (Cons c xs)
  obtain st' r where r: "resolveInheritanceClass cs st c = (st', r)"
    by (cases "resolveInheritanceClass cs st c")
  obtain st'' rs where rs: "resolveEach cs st' xs = (st'', rs)"
    by (cases "resolveEach cs st' xs")
  from resolveInheritanceClass_fixed [where cs = cs and st = st and c = c] r
    Cons.IH [of st'] rs
  show ?case
    by (auto intro: prefix_order.trans)
qed

lemma find_Some_mem: "find P xs = Some x \<Longrightarrow> x \<in> set xs \<and> P x"
  by (auto simp: find_Some_iff)

lemma resolveInheritance_types:
  "r \<in> set (snd (resolveInheritance st cs)) \<Longrightarrow> EntityDefinitionClassInfo.type r \<noteq> BaseClass"
proof -
  assume r: "r \<in> set (snd (resolveInheritance st cs))"
  obtain st' fs where f: "filterRedundantClasses st cs = (st', fs)"
    by (cases "filterRedundantClasses st cs")
  let ?xs = "filter (\<lambda>c. EntityDefinitionClassInfo.type c \<noteq> BaseClass) fs"
  from r f have "r \<in> set (snd (resolveEach fs st' ?xs))"
    by (simp add: resolveInheritance_def)
  then have "EntityDefinitionClassInfo.type r
      \<in> set (map EntityDefinitionClassInfo.type (snd (resolveEach fs st' ?xs)))"
    by simp
  then have "EntityDefinitionClassInfo.type r \<in> set (map EntityDefinitionClassInfo.type ?xs)"
    using resolveEach_shape [of fs st' ?xs] by simp
  then show ?thesis by auto
qed

lemma createDefinition_None_iff:
  "createDefinition r col = None \<longleftrightarrow> EntityDefinitionClassInfo.type r = BaseClass"
  by (simp add: createDefinition_def Let_def split: EntityDefinitionClassType.splits)

lemma map_filter_all_Some:
  "(\<And>x. x \<in> set xs \<Longrightarrow> f x \<noteq> None) \<Longrightarrow> map Some (List.map_filter f xs) = map f xs"
proof (induction xs)
  case Nil
  show ?case by simp
next
  case (Cons a xs)
  from Cons.prems [of a] obtain y where y: "f a = Some y" by auto
  from Cons.prems have "map Some (List.map_filter f xs) = map f xs"
    by (intro Cons.IH) simp
  with y show ?case by simp
qed



section \<open>Super-class selection (C4)\<close>

text \<open>
  Claim C4. For a declared super-class name \<open>n\<close> and the classes of the filtered list
  with that name: a single candidate is selected whatever its type; among several, a
  candidate of the inheriting class's type is selected; failing that, when the inheriting
  class is not a BaseClass, a candidate of type BaseClass is selected; no candidate is
  selected exactly when there is none, or there are several and neither rule applies. When
  none is selected the loop reports "No matching super class found for 'n'" at the
  location of the class that declares the name, leaves the inheriting class as it is and
  goes on with the next name.
\<close>

theorem selectSuperClass_policy:
  "(findClassInfos cs n = [c] \<longrightarrow> selectSuperClass inh (findClassInfos cs n) = Some c)
   \<and> (1 < length (findClassInfos cs n)
        \<and> (\<exists>c \<in> set (findClassInfos cs n).
              EntityDefinitionClassInfo.type c = EntityDefinitionClassInfo.type inh) \<longrightarrow>
       (\<exists>c'. selectSuperClass inh (findClassInfos cs n) = Some c' \<and> c' \<in> set cs \<and> name c' = n
          \<and> EntityDefinitionClassInfo.type c' = EntityDefinitionClassInfo.type inh))
   \<and> (1 < length (findClassInfos cs n)
        \<and> (\<forall>c \<in> set (findClassInfos cs n).
              EntityDefinitionClassInfo.type c \<noteq> EntityDefinitionClassInfo.type inh)
        \<and> EntityDefinitionClassInfo.type inh \<noteq> BaseClass
        \<and> (\<exists>c \<in> set (findClassInfos cs n). EntityDefinitionClassInfo.type c = BaseClass) \<longrightarrow>
       (\<exists>c'. selectSuperClass inh (findClassInfos cs n) = Some c' \<and> c' \<in> set cs \<and> name c' = n
          \<and> EntityDefinitionClassInfo.type c' = BaseClass))
   \<and> (selectSuperClass inh (findClassInfos cs n) = None \<longleftrightarrow>
        findClassInfos cs n = []
        \<or> (1 < length (findClassInfos cs n)
            \<and> (\<forall>c \<in> set (findClassInfos cs n).
                  EntityDefinitionClassInfo.type c \<noteq> EntityDefinitionClassInfo.type inh)
            \<and> (EntityDefinitionClassInfo.type inh = BaseClass
                \<or> (\<forall>c \<in> set (findClassInfos cs n).
                      EntityDefinitionClassInfo.type c \<noteq> BaseClass))))
   \<and> (selectSuperClass inh (findClassInfos cs n) = None \<longrightarrow>
        inheritFromEach cs (status, inh) loc (n # rest) visited =
        inheritFromEach cs
          (error status loc (''No matching super class found for '' @ quoted n), inh)
          loc rest visited)"
proof (intro conjI impI)
  assume "findClassInfos cs n = [c]"
  then show "selectSuperClass inh (findClassInfos cs n) = Some c"
    by (simp add: selectSuperClass_def)
next
  let ?cands = "findClassInfos cs n"
  assume a: "1 < length ?cands \<and>
    (\<exists>c \<in> set ?cands. EntityDefinitionClassInfo.type c = EntityDefinitionClassInfo.type inh)"
  then obtain c' where c': "findClassInfoWithType ?cands (EntityDefinitionClassInfo.type inh) = Some c'"
    by (cases "findClassInfoWithType ?cands (EntityDefinitionClassInfo.type inh)")
      (auto simp: findClassInfoWithType_def find_None_iff)
  then have "c' \<in> set ?cands \<and> EntityDefinitionClassInfo.type c' = EntityDefinitionClassInfo.type inh"
    unfolding findClassInfoWithType_def by (rule find_Some_mem)
  moreover from a c' have "selectSuperClass inh ?cands = Some c'"
    by (simp add: selectSuperClass_def)
  ultimately show "\<exists>c'. selectSuperClass inh ?cands = Some c' \<and> c' \<in> set cs \<and> name c' = n
      \<and> EntityDefinitionClassInfo.type c' = EntityDefinitionClassInfo.type inh"
    by (auto simp: findClassInfos_def)
next
  let ?cands = "findClassInfos cs n"
  assume a: "1 < length ?cands
     \<and> (\<forall>c \<in> set ?cands. EntityDefinitionClassInfo.type c \<noteq> EntityDefinitionClassInfo.type inh)
     \<and> EntityDefinitionClassInfo.type inh \<noteq> BaseClass
     \<and> (\<exists>c \<in> set ?cands. EntityDefinitionClassInfo.type c = BaseClass)"
  then have none: "findClassInfoWithType ?cands (EntityDefinitionClassInfo.type inh) = None"
    by (auto simp: findClassInfoWithType_def find_None_iff)
  from a obtain c' where c': "findClassInfoWithType ?cands BaseClass = Some c'"
    by (cases "findClassInfoWithType ?cands BaseClass")
      (auto simp: findClassInfoWithType_def find_None_iff)
  then have "c' \<in> set ?cands \<and> EntityDefinitionClassInfo.type c' = BaseClass"
    unfolding findClassInfoWithType_def by (rule find_Some_mem)
  moreover from a none c' have "selectSuperClass inh ?cands = Some c'"
    by (simp add: selectSuperClass_def)
  ultimately show "\<exists>c'. selectSuperClass inh ?cands = Some c' \<and> c' \<in> set cs \<and> name c' = n
      \<and> EntityDefinitionClassInfo.type c' = BaseClass"
    by (auto simp: findClassInfos_def)
next
  let ?cands = "findClassInfos cs n"
  show "selectSuperClass inh ?cands = None \<longleftrightarrow>
        ?cands = []
        \<or> (1 < length ?cands
            \<and> (\<forall>c \<in> set ?cands. EntityDefinitionClassInfo.type c \<noteq> EntityDefinitionClassInfo.type inh)
            \<and> (EntityDefinitionClassInfo.type inh = BaseClass
                \<or> (\<forall>c \<in> set ?cands. EntityDefinitionClassInfo.type c \<noteq> BaseClass)))"
    by (cases ?cands)
      (auto simp: selectSuperClass_def findClassInfoWithType_def find_None_iff
        split: option.splits if_splits dest!: find_Some_mem)
next
  assume "selectSuperClass inh (findClassInfos cs n) = None"
  then show "inheritFromEach cs (status, inh) loc (n # rest) visited =
        inheritFromEach cs
          (error status loc (''No matching super class found for '' @ quoted n), inh)
          loc rest visited"
    by simp
qed

theorem selectSuperClass_policy_witness:
  "findClassInfos [classInfo0 BaseClass ''a'' [], classInfo0 PointClass ''x'' [''a'']] ''a''
     = [classInfo0 BaseClass ''a'' []]
   \<and> selectSuperClass (classInfo0 PointClass ''x'' [''a''])
        (findClassInfos [classInfo0 BaseClass ''a'' [], classInfo0 PointClass ''x'' [''a'']] ''a'')
     = Some (classInfo0 BaseClass ''a'' [])
   \<and> length (findClassInfos
        [classInfo0 PointClass ''m'' [], classInfo0 BrushClass ''m'' [],
         classInfo0 BrushClass ''x'' [''m'']] ''m'') = 2
   \<and> selectSuperClass (classInfo0 BrushClass ''x'' [''m''])
        (findClassInfos
           [classInfo0 PointClass ''m'' [], classInfo0 BrushClass ''m'' [],
            classInfo0 BrushClass ''x'' [''m'']] ''m'')
     = Some (classInfo0 BrushClass ''m'' [])
   \<and> selectSuperClass (classInfo0 BaseClass ''y'' [''m''])
        (findClassInfos
           [classInfo0 PointClass ''m'' [], classInfo0 BrushClass ''m'' [],
            classInfo0 BaseClass ''y'' [''m'']] ''m'')
     = None
   \<and> inheritFromEach
        [classInfo0 PointClass ''m'' [], classInfo0 BrushClass ''m'' [],
         classInfo0 BaseClass ''y'' [''m'']]
        ([], classInfo0 BaseClass ''y'' [''m'']) \<lparr>line = 0, column = None\<rparr> [''m''] {}
     = ([(Error, \<lparr>line = 0, column = None\<rparr>,
          ''No matching super class found for '' @ quoted ''m'')],
        classInfo0 BaseClass ''y'' [''m''])"
  using selectSuperClass_policy
    [of "[classInfo0 BaseClass ''a'' [], classInfo0 PointClass ''x'' [''a'']]" "''a''"
        "classInfo0 BaseClass ''a'' []" "classInfo0 PointClass ''x'' [''a'']"]
    selectSuperClass_policy
    [of "[classInfo0 PointClass ''m'' [], classInfo0 BrushClass ''m'' [],
          classInfo0 BrushClass ''x'' [''m'']]" "''m''" _ "classInfo0 BrushClass ''x'' [''m'']"]
    selectSuperClass_policy
    [of "[classInfo0 PointClass ''m'' [], classInfo0 BrushClass ''m'' [],
          classInfo0 BaseClass ''y'' [''m'']]" "''m''" _ "classInfo0 BaseClass ''y'' [''m'']"
        "[]" "\<lparr>line = 0, column = None\<rparr>" "[]" "{}"]
  by (simp add: findClassInfos_def classInfo0_def selectSuperClass_def
      findClassInfoWithType_def error_def quoted_def)

section \<open>Precedence along a chain and cycles (C1, C2)\<close>

lemma findClassInfos_single:
  "findClassInfos cs n = [c] \<Longrightarrow> name c = n \<and> c \<in> set cs"
proof -
  assume "findClassInfos cs n = [c]"
  then have "c \<in> set (filter (\<lambda>c. name c = n) cs)"
    by (simp add: findClassInfos_def)
  then show ?thesis by simp
qed

lemma selectSuperClass_single: "selectSuperClass inh [c] = Some c"
  by (simp add: selectSuperClass_def)

lemma firstWriterWins_refl: "firstWriterWins a a"
  by (simp add: firstWriterWins_def)

lemma firstWriterWins_trans:
  "firstWriterWins a b \<Longrightarrow> firstWriterWins b c \<Longrightarrow> firstWriterWins a c"
  unfolding firstWriterWins_def by metis

lemma firstWriterWins_inheritAttributes: "firstWriterWins a (inheritAttributes a sc)"
  by (auto simp: firstWriterWins_def inheritAttributes_def)

lemma walk_firstWriterWins:
  "firstWriterWins (snd s) (snd (inheritFromAndRecurse cs s sc visited))"
  "firstWriterWins (snd s) (snd (findSuperClassesAndInheritFrom cs s c visited))"
  "firstWriterWins (snd s) (snd (inheritFromEach cs s loc ns visited))"
proof (induction cs s sc visited and cs s c visited and cs s loc ns visited
    rule: inheritFromAndRecurse_findSuperClassesAndInheritFrom_inheritFromEach.induct)
  case (1 cs status inheritingClass superClass visited)
  show ?case
  proof (cases "name superClass \<in> visited")
    case True
    then show ?thesis by (simp add: firstWriterWins_refl)
  next
    case False
    with 1 have "firstWriterWins (inheritAttributes inheritingClass superClass)
        (snd (inheritFromAndRecurse cs (status, inheritingClass) superClass visited))"
      by simp
    with firstWriterWins_inheritAttributes [of inheritingClass superClass] show ?thesis
      by (auto intro: firstWriterWins_trans)
  qed
next
  case (2 cs status inheritingClass classWithSuperClasses visited)
  then show ?case by simp
next
  case (3 cs status inheritingClass loc visited)
  show ?case by (simp add: firstWriterWins_refl)
next
  case (4 cs status inheritingClass loc nextSuperClassName rest visited)
  show ?case
  proof (cases "selectSuperClass inheritingClass (findClassInfos cs nextSuperClassName)")
    case None
    with 4(2) show ?thesis by simp
  next
    case (Some x)
    from 4(1) [OF Some] 4(2) Some show ?thesis
      by (auto intro: firstWriterWins_trans)
  qed
qed

lemma chain_unfold:
  assumes X: "superClasses X = yn # xs"
    and Y: "findClassInfos cs yn = [Y]" "superClasses Y = zn # ys"
    and Z: "findClassInfos cs zn = [Z]"
    and ne: "zn \<noteq> yn"
  shows "resolveInheritanceClass cs status X =
     inheritFromEach cs
       (inheritFromEach cs
          (inheritFromEach cs (status, inheritAttributes (inheritAttributes X Y) Z)
             (location Z) (superClasses Z) {zn, yn})
          (location Y) ys {yn})
       (location X) xs {}"
proof -
  from Y(1) have nY: "name Y = yn" by (simp add: findClassInfos_single)
  from Z have nZ: "name Z = zn" by (simp add: findClassInfos_single)
  let ?X1 = "inheritAttributes X Y"
  let ?X2 = "inheritAttributes ?X1 Z"
  have z: "inheritFromAndRecurse cs (status, ?X1) Z {yn} =
      inheritFromEach cs (status, ?X2) (location Z) (superClasses Z) {zn, yn}"
    using nZ ne by simp
  have y: "inheritFromAndRecurse cs (status, X) Y {} =
      inheritFromEach cs (inheritFromAndRecurse cs (status, ?X1) Z {yn}) (location Y) ys {yn}"
    using nY by (simp add: Y Z selectSuperClass_single)
  have "resolveInheritanceClass cs status X =
      inheritFromEach cs (inheritFromAndRecurse cs (status, X) Y {}) (location X) xs {}"
    by (simp add: resolveInheritanceClass_def X Y(1) selectSuperClass_single)
  then show ?thesis
    by (simp only: y z)
qed

text \<open>
  Claim C1, as stated, fails in two ways. In the first list X declares Y, Y declares Z and
  Z declares W; only W has a description, and X ends with W's description, not with Z's
  (which is unset). In the second list X declares W before Y, and X ends with W's
  description although Y has one. Both lists pass the filter unchanged and resolve
  without a diagnostic.
\<close>

theorem resolveInheritance_chain_counterexample:
  "filterRedundantClasses []
     [classInfo0 PointClass ''x'' [''y''], classInfo0 BaseClass ''y'' [''z''],
      classInfo0 BaseClass ''z'' [''w''],
      (classInfo0 BaseClass ''w'' [])\<lparr>description := Some ''from w''\<rparr>]
   = ([], [classInfo0 PointClass ''x'' [''y''], classInfo0 BaseClass ''y'' [''z''],
           classInfo0 BaseClass ''z'' [''w''],
           (classInfo0 BaseClass ''w'' [])\<lparr>description := Some ''from w''\<rparr>])
   \<and> description (classInfo0 BaseClass ''y'' [''z'']) = None
   \<and> description (classInfo0 BaseClass ''z'' [''w'']) = None
   \<and> resolveInheritance []
        [classInfo0 PointClass ''x'' [''y''], classInfo0 BaseClass ''y'' [''z''],
         classInfo0 BaseClass ''z'' [''w''],
         (classInfo0 BaseClass ''w'' [])\<lparr>description := Some ''from w''\<rparr>]
       = ([], [(classInfo0 PointClass ''x'' [''y''])\<lparr>description := Some ''from w''\<rparr>])
   \<and> filterRedundantClasses []
       [classInfo0 PointClass ''x'' [''w'', ''y''],
        (classInfo0 BaseClass ''y'' [''z''])\<lparr>description := Some ''from y''\<rparr>,
        classInfo0 BaseClass ''z'' [],
        (classInfo0 BaseClass ''w'' [])\<lparr>description := Some ''from w''\<rparr>]
     = ([], [classInfo0 PointClass ''x'' [''w'', ''y''],
        (classInfo0 BaseClass ''y'' [''z''])\<lparr>description := Some ''from y''\<rparr>,
        classInfo0 BaseClass ''z'' [],
        (classInfo0 BaseClass ''w'' [])\<lparr>description := Some ''from w''\<rparr>])
   \<and> resolveInheritance []
        [classInfo0 PointClass ''x'' [''w'', ''y''],
         (classInfo0 BaseClass ''y'' [''z''])\<lparr>description := Some ''from y''\<rparr>,
         classInfo0 BaseClass ''z'' [],
         (classInfo0 BaseClass ''w'' [])\<lparr>description := Some ''from w''\<rparr>]
       = ([], [(classInfo0 PointClass ''x'' [''w'', ''y''])\<lparr>description := Some ''from w''\<rparr>])"
  by (simp add: eval_defs)

text \<open>
  Claim C1, amended. Let Y be the first super class that X declares and Z the first that
  Y declares, each name with exactly one candidate, the two names different, and let X have
  no description, colour and size. Then each of the three ends as Y's value when Y has set
  it, and as Z's value when Y has not and Z has: a class is merged before its own super
  classes are walked, and an attribute once set is never overwritten. When neither has
  set it, the value is whatever the rest of the walk supplies; in particular, when X
  declares only Y, Y only Z, and Z nothing, resolution reports nothing and returns X
  merged with Y and then with Z, so each attribute is Y's if Y set it and Z's otherwise.
\<close>

theorem resolveInheritance_chain:
  assumes X: "superClasses X = yn # xs"
    and Y: "findClassInfos cs yn = [Y]" "superClasses Y = zn # ys"
    and Z: "findClassInfos cs zn = [Z]"
    and ne: "zn \<noteq> yn"
    and unset: "description X = None" "color X = None" "size_box X = None"
  shows "(description Y \<noteq> None \<longrightarrow>
            description (snd (resolveInheritanceClass cs status X)) = description Y)
     \<and> (description Y = None \<and> description Z \<noteq> None \<longrightarrow>
            description (snd (resolveInheritanceClass cs status X)) = description Z)
     \<and> (color Y \<noteq> None \<longrightarrow> color (snd (resolveInheritanceClass cs status X)) = color Y)
     \<and> (color Y = None \<and> color Z \<noteq> None \<longrightarrow>
            color (snd (resolveInheritanceClass cs status X)) = color Z)
     \<and> (size_box Y \<noteq> None \<longrightarrow>
            size_box (snd (resolveInheritanceClass cs status X)) = size_box Y)
     \<and> (size_box Y = None \<and> size_box Z \<noteq> None \<longrightarrow>
            size_box (snd (resolveInheritanceClass cs status X)) = size_box Z)
     \<and> (xs = [] \<and> ys = [] \<and> superClasses Z = [] \<longrightarrow>
            resolveInheritanceClass cs status X =
              (status, inheritAttributes (inheritAttributes X Y) Z)
            \<and> description (snd (resolveInheritanceClass cs status X)) =
                (case description Y of Some d \<Rightarrow> Some d | None \<Rightarrow> description Z)
            \<and> color (snd (resolveInheritanceClass cs status X)) =
                (case color Y of Some c \<Rightarrow> Some c | None \<Rightarrow> color Z)
            \<and> size_box (snd (resolveInheritanceClass cs status X)) =
                (case size_box Y of Some s \<Rightarrow> Some s | None \<Rightarrow> size_box Z))"
proof -
  let ?X2 = "inheritAttributes (inheritAttributes X Y) Z"
  let ?s1 = "inheritFromEach cs (status, ?X2) (location Z) (superClasses Z) {zn, yn}"
  let ?s2 = "inheritFromEach cs ?s1 (location Y) ys {yn}"
  let ?R = "snd (resolveInheritanceClass cs status X)"
  have unfold: "resolveInheritanceClass cs status X = inheritFromEach cs ?s2 (location X) xs {}"
    using X Y Z ne by (rule chain_unfold)
  have "firstWriterWins ?X2 (snd ?s1)"
    using walk_firstWriterWins(3) [of "(status, ?X2)" cs "location Z" "superClasses Z" "{zn, yn}"]
    by simp
  moreover have "firstWriterWins (snd ?s1) (snd ?s2)"
    by (rule walk_firstWriterWins(3))
  moreover have "firstWriterWins (snd ?s2) ?R"
    unfolding unfold by (rule walk_firstWriterWins(3))
  ultimately have fw: "firstWriterWins ?X2 ?R"
    by (blast intro: firstWriterWins_trans)
  have d: "description ?X2 = (case description Y of Some d \<Rightarrow> Some d | None \<Rightarrow> description Z)"
    and c: "color ?X2 = (case color Y of Some c \<Rightarrow> Some c | None \<Rightarrow> color Z)"
    and b: "size_box ?X2 = (case size_box Y of Some s \<Rightarrow> Some s | None \<Rightarrow> size_box Z)"
    using unset by (simp_all add: inheritAttributes_def split: option.splits)
  have exact: "resolveInheritanceClass cs status X = (status, ?X2)"
    if "xs = [] \<and> ys = [] \<and> superClasses Z = []"
    using that by (simp add: unfold)
  from fw d c b exact show ?thesis
    unfolding firstWriterWins_def by (auto split: option.splits)
qed

theorem resolveInheritance_chain_witness:
  "superClasses (classInfo0 PointClass ''x'' [''y'']) = [''y'']
   \<and> findClassInfos
        [classInfo0 PointClass ''x'' [''y''],
         (classInfo0 BaseClass ''y'' [''z''])\<lparr>color := Some (Color 1 0 0 1)\<rparr>,
         (classInfo0 BaseClass ''z'' [])
           \<lparr>description := Some ''from z'', color := Some (Color 0 0 1 1)\<rparr>] ''y''
       = [(classInfo0 BaseClass ''y'' [''z''])\<lparr>color := Some (Color 1 0 0 1)\<rparr>]
   \<and> snd (resolveInheritanceClass
        [classInfo0 PointClass ''x'' [''y''],
         (classInfo0 BaseClass ''y'' [''z''])\<lparr>color := Some (Color 1 0 0 1)\<rparr>,
         (classInfo0 BaseClass ''z'' [])
           \<lparr>description := Some ''from z'', color := Some (Color 0 0 1 1)\<rparr>]
        [] (classInfo0 PointClass ''x'' [''y'']))
       = (classInfo0 PointClass ''x'' [''y''])
           \<lparr>description := Some ''from z'', color := Some (Color 1 0 0 1)\<rparr>"
  using resolveInheritance_chain
    [where X = "classInfo0 PointClass ''x'' [''y'']" and yn = "''y''" and xs = "[]"
       and cs = "[classInfo0 PointClass ''x'' [''y''],
         (classInfo0 BaseClass ''y'' [''z''])\<lparr>color := Some (Color 1 0 0 1)\<rparr>,
         (classInfo0 BaseClass ''z'' [])
           \<lparr>description := Some ''from z'', color := Some (Color 0 0 1 1)\<rparr>]"
       and Y = "(classInfo0 BaseClass ''y'' [''z''])\<lparr>color := Some (Color 1 0 0 1)\<rparr>"
       and zn = "''z''" and ys = "[]"
       and Z = "(classInfo0 BaseClass ''z'' [])
           \<lparr>description := Some ''from z'', color := Some (Color 0 0 1 1)\<rparr>"
       and status = "[]"]
  by (simp add: classInfo0_def findClassInfos_def inheritAttributes_def)


text \<open>
  Claim C2. The walk is documented to report a cycle when the super class "has already
  been visited on the current path from the inheriting class to the super class". The
  path that \<open>resolveInheritance\<close> starts with is empty and never holds the inheriting
  class itself. In the cycle of A and B, resolving A therefore follows the edge from B back
  to A: the A of the list is merged into the inheriting class and its super classes are
  walked a second time, and only the second edge into B is reported. One diagnostic is
  added, but the inheriting class is not left as it was before that edge: merged with B
  alone A keeps its model definition [m], resolved it has [m, m]; and a further super
  class c of A is merged twice, giving [k, k] where resolving A with c alone gives [k].
  The list of A and B passes the filter unchanged.
\<close>

theorem resolveInheritance_cycle_self_merge:
  "filterRedundantClasses []
     [(classInfo0 PointClass ''a'' [''b''])\<lparr>modelDefinition := Some (ModelDefinition [''m''])\<rparr>,
      (classInfo0 PointClass ''b'' [''a''])\<lparr>description := Some ''from b''\<rparr>]
   = ([], [(classInfo0 PointClass ''a'' [''b''])\<lparr>modelDefinition := Some (ModelDefinition [''m''])\<rparr>,
           (classInfo0 PointClass ''b'' [''a''])\<lparr>description := Some ''from b''\<rparr>])
   \<and> inheritAttributes
        ((classInfo0 PointClass ''a'' [''b''])\<lparr>modelDefinition := Some (ModelDefinition [''m''])\<rparr>)
        ((classInfo0 PointClass ''b'' [''a''])\<lparr>description := Some ''from b''\<rparr>)
     = (classInfo0 PointClass ''a'' [''b''])
         \<lparr>description := Some ''from b'', modelDefinition := Some (ModelDefinition [''m''])\<rparr>
   \<and> resolveInheritanceClass
        [(classInfo0 PointClass ''a'' [''b''])\<lparr>modelDefinition := Some (ModelDefinition [''m''])\<rparr>,
         (classInfo0 PointClass ''b'' [''a''])\<lparr>description := Some ''from b''\<rparr>]
        [] ((classInfo0 PointClass ''a'' [''b''])\<lparr>modelDefinition := Some (ModelDefinition [''m''])\<rparr>)
     = ([(Error, \<lparr>line = 0, column = None\<rparr>,
          ''Entity definition class hierarchy contains a cycle'')],
        (classInfo0 PointClass ''a'' [''b''])
          \<lparr>description := Some ''from b'',
           modelDefinition := Some (ModelDefinition [''m'', ''m''])\<rparr>)
   \<and> resolveInheritanceClass
        [classInfo0 PointClass ''a'' [''c''],
         (classInfo0 BaseClass ''c'' [])\<lparr>modelDefinition := Some (ModelDefinition [''k''])\<rparr>]
        [] (classInfo0 PointClass ''a'' [''c''])
     = ([], (classInfo0 PointClass ''a'' [''c''])
              \<lparr>modelDefinition := Some (ModelDefinition [''k''])\<rparr>)
   \<and> resolveInheritanceClass
        [classInfo0 PointClass ''a'' [''b'', ''c''], classInfo0 PointClass ''b'' [''a''],
         (classInfo0 BaseClass ''c'' [])\<lparr>modelDefinition := Some (ModelDefinition [''k''])\<rparr>]
        [] (classInfo0 PointClass ''a'' [''b'', ''c''])
     = ([(Error, \<lparr>line = 0, column = None\<rparr>,
          ''Entity definition class hierarchy contains a cycle'')],
        (classInfo0 PointClass ''a'' [''b'', ''c''])
          \<lparr>modelDefinition := Some (ModelDefinition [''k'', ''k''])\<rparr>)"
  by (simp add: eval_defs)

section \<open>Redundancy filter (C5, C6)\<close>

lemma getMask_values:
  "getMask PointClass = 1" "getMask BrushClass = 2" "getMask BaseClass = 4" "baseClassMask = 4"
  by (simp_all add: getMask_def baseClassMask_def)

lemma mask3_values:
  "mask3 False False False = 0" "mask3 True False False = 1"
  "mask3 False True False = 2" "mask3 True True False = 3"
  "mask3 False False True = 4" "mask3 True False True = 5"
  "mask3 False True True = 6" "mask3 True True True = 7"
  by (simp_all add: mask3_def)

lemma mask3_and_point: "getMask PointClass AND mask3 p b s \<noteq> 0 \<longleftrightarrow> p"
  by (cases p; cases b; cases s) (simp_all add: mask3_values getMask_values)

lemma mask3_and_brush: "getMask BrushClass AND mask3 p b s \<noteq> 0 \<longleftrightarrow> b"
  by (cases p; cases b; cases s) (simp_all add: mask3_values getMask_values)

lemma mask3_and_base: "getMask BaseClass AND mask3 p b s \<noteq> 0 \<longleftrightarrow> s"
  by (cases p; cases b; cases s) (simp_all add: mask3_values getMask_values)

lemma mask3_base_and: "mask3 p b s AND baseClassMask \<noteq> 0 \<longleftrightarrow> s"
  by (cases p; cases b; cases s) (simp_all add: mask3_values getMask_values)

lemma mask3_nonzero: "mask3 p b s \<noteq> 0 \<longleftrightarrow> p \<or> b \<or> s"
  by (cases p; cases b; cases s) (simp_all add: mask3_values)

lemmas mask3_and = mask3_and_point mask3_and_brush mask3_and_base mask3_base_and mask3_nonzero

lemma mask3_or_point: "\<not> p \<Longrightarrow> mask3 p b s OR getMask PointClass = mask3 True b s"
  by (cases b; cases s) (simp_all add: mask3_values getMask_values)

lemma mask3_or_brush: "\<not> b \<Longrightarrow> mask3 p b s OR getMask BrushClass = mask3 p True s"
  by (cases p; cases s) (simp_all add: mask3_values getMask_values)

lemma mask3_or_base: "\<not> s \<Longrightarrow> mask3 p b s OR getMask BaseClass = mask3 p b True"
  by (cases p; cases b) (simp_all add: mask3_values getMask_values)

lemmas mask3_or = mask3_or_point mask3_or_brush mask3_or_base

lemma getMask_base: "getMask t AND baseClassMask \<noteq> 0 \<longleftrightarrow> t = BaseClass"
  by (cases t) (simp_all add: getMask_values)

lemma accepted_any:
  "(\<exists>a \<in> set acc. name a = n) \<longleftrightarrow>
   accepted acc n PointClass \<or> accepted acc n BrushClass \<or> accepted acc n BaseClass"
proof -
  have "\<And>a. EntityDefinitionClassInfo.type a = PointClass
      \<or> EntityDefinitionClassInfo.type a = BrushClass
      \<or> EntityDefinitionClassInfo.type a = BaseClass"
    using EntityDefinitionClassType.exhaust by blast
  then show ?thesis
    unfolding accepted_def by blast
qed

lemma maskOf_and: "getMask t AND maskOf acc n \<noteq> 0 \<longleftrightarrow> accepted acc n t"
  by (cases t) (simp_all add: maskOf_def mask3_and)

lemma maskOf_base: "maskOf acc n AND baseClassMask \<noteq> 0 \<longleftrightarrow> accepted acc n BaseClass"
  by (simp add: maskOf_def mask3_and)

lemma maskOf_nonzero: "maskOf acc n \<noteq> 0 \<longleftrightarrow> (\<exists>a \<in> set acc. name a = n)"
  by (simp add: maskOf_def mask3_and accepted_any)

lemma accepted_snoc:
  "accepted (acc @ [c]) n t \<longleftrightarrow>
   accepted acc n t \<or> (name c = n \<and> EntityDefinitionClassInfo.type c = t)"
  by (auto simp: accepted_def)

lemma maskOf_snoc:
  "\<not> accepted acc (name c) (EntityDefinitionClassInfo.type c) \<Longrightarrow>
   maskOf (acc @ [c]) n =
     (if n = name c then maskOf acc n OR getMask (EntityDefinitionClassInfo.type c)
      else maskOf acc n)"
  by (cases "EntityDefinitionClassInfo.type c")
    (auto simp: maskOf_def accepted_snoc mask3_or)

lemma filterLoop_refines:
  "(\<And>n. lookupMask seen n = maskOf acc n) \<Longrightarrow>
   filterLoop seen status acc cs = filterSpec status acc cs"
proof (induction cs arbitrary: seen status acc)
  case Nil
  show ?case by simp
next
  case (Cons c cs)
  let ?n = "name c" and ?t = "EntityDefinitionClassInfo.type c"
  let ?dup = "warn status (location c) (''Duplicate class info '' @ quoted (name c))"
  let ?red = "warn status (location c) (''Redundant class info '' @ quoted (name c))"
  have m: "(case seen ?n of None \<Rightarrow> 0 | Some m \<Rightarrow> m) = maskOf acc ?n"
    using Cons.prems [of ?n] by (simp add: lookupMask_def)
  have same: "\<And>n. lookupMask (seen(?n \<mapsto> maskOf acc ?n)) n = maskOf acc n"
    using Cons.prems by (simp add: lookupMask_def)
  show ?case
  proof (cases "accepted acc ?n ?t")
    case True
    then have "filterLoop seen status acc (c # cs)
        = filterLoop (seen(?n \<mapsto> maskOf acc ?n)) ?dup acc cs"
      by (simp add: m maskOf_and Let_def)
    also have "\<dots> = filterSpec ?dup acc cs"
      by (rule Cons.IH [OF same])
    also have "\<dots> = filterSpec status acc (c # cs)"
      using True by simp
    finally show ?thesis .
  next
    case dup: False
    show ?thesis
    proof (cases "accepted acc ?n BaseClass \<or> (?t = BaseClass \<and> (\<exists>a \<in> set acc. name a = ?n))")
      case True
      with dup have "filterLoop seen status acc (c # cs)
          = filterLoop (seen(?n \<mapsto> maskOf acc ?n)) ?red acc cs"
        by (auto simp: m maskOf_and maskOf_base maskOf_nonzero getMask_base Let_def)
      also have "\<dots> = filterSpec ?red acc cs"
        by (rule Cons.IH [OF same])
      also have "\<dots> = filterSpec status acc (c # cs)"
        using True dup by simp
      finally show ?thesis .
    next
      case False
      have upd: "\<And>n. lookupMask (seen(?n \<mapsto> maskOf acc ?n OR getMask ?t)) n
          = maskOf (acc @ [c]) n"
        using Cons.prems by (simp add: lookupMask_def maskOf_snoc [OF dup])
      from False dup have "filterLoop seen status acc (c # cs)
          = filterLoop (seen(?n \<mapsto> maskOf acc ?n OR getMask ?t)) status (acc @ [c]) cs"
        by (auto simp: m maskOf_and maskOf_base maskOf_nonzero getMask_base Let_def)
      also have "\<dots> = filterSpec status (acc @ [c]) cs"
        by (rule Cons.IH [OF upd])
      also have "\<dots> = filterSpec status acc (c # cs)"
        using False dup by auto
      finally show ?thesis .
    qed
  qed
qed

lemma filterSpec_subseq:
  "\<exists>ys. snd (filterSpec status acc cs) = acc @ ys \<and> subseq ys cs"
proof (induction cs arbitrary: status acc)
  case Nil
  show ?case by simp
next
  case (Cons c cs)
  let ?dup = "warn status (location c) (''Duplicate class info '' @ quoted (name c))"
  let ?red = "warn status (location c) (''Redundant class info '' @ quoted (name c))"
  consider (dup) "filterSpec status acc (c # cs) = filterSpec ?dup acc cs"
    | (red) "filterSpec status acc (c # cs) = filterSpec ?red acc cs"
    | (acc) "filterSpec status acc (c # cs) = filterSpec status (acc @ [c]) cs"
    by (cases "accepted acc (name c) (EntityDefinitionClassInfo.type c)";
        cases "accepted acc (name c) BaseClass
          \<or> (EntityDefinitionClassInfo.type c = BaseClass \<and> (\<exists>a \<in> set acc. name a = name c))")
      simp_all
  then show ?case
  proof cases
    case dup
    from Cons.IH [of ?dup acc] obtain ys where
      ys: "snd (filterSpec ?dup acc cs) = acc @ ys" and sub: "subseq ys cs" by blast
    from sub have "subseq ys (c # cs)"
      by (rule list_emb_Cons)
    with ys show ?thesis
      unfolding dup by blast
  next
    case red
    from Cons.IH [of ?red acc] obtain ys where
      ys: "snd (filterSpec ?red acc cs) = acc @ ys" and sub: "subseq ys cs" by blast
    from sub have "subseq ys (c # cs)"
      by (rule list_emb_Cons)
    with ys show ?thesis
      unfolding red by blast
  next
    case acc
    from Cons.IH [of status "acc @ [c]"] obtain ys where
      ys: "snd (filterSpec status (acc @ [c]) cs) = (acc @ [c]) @ ys" and sub: "subseq ys cs"
      by blast
    from ys have "snd (filterSpec status (acc @ [c]) cs) = acc @ (c # ys)"
      by simp
    moreover from sub have "subseq (c # ys) (c # cs)"
      by simp
    ultimately show ?thesis
      unfolding acc by blast
  qed
qed

lemma filterRedundantClasses_filterSpec:
  "filterRedundantClasses status classInfos = filterSpec status [] classInfos"
  unfolding filterRedundantClasses_def
  by (rule filterLoop_refines) (simp add: lookupMask_def maskOf_def mask3_def accepted_def)

lemma filterInvariant_snoc:
  assumes inv: "filterInvariant acc"
    and dup: "\<not> accepted acc (name c) (EntityDefinitionClassInfo.type c)"
    and base: "\<not> accepted acc (name c) BaseClass"
    and any: "EntityDefinitionClassInfo.type c = BaseClass \<Longrightarrow> \<forall>a \<in> set acc. name a \<noteq> name c"
  shows "filterInvariant (acc @ [c])"
proof -
  have d: "distinct (map (\<lambda>c. (name c, EntityDefinitionClassInfo.type c)) (acc @ [c]))"
    using inv dup by (auto simp: filterInvariant_def accepted_def)
  have b: "findClassInfos (acc @ [c]) (name a) = [a]"
    if a: "a \<in> set (acc @ [c])" and ta: "EntityDefinitionClassInfo.type a = BaseClass" for a
  proof (cases "a \<in> set acc")
    case True
    with inv ta have "findClassInfos acc (name a) = [a]"
      by (simp add: filterInvariant_def)
    moreover from True ta base have "name c \<noteq> name a"
      by (auto simp: accepted_def)
    ultimately show ?thesis
      by (simp add: findClassInfos_def)
  next
    case False
    with a have ac: "a = c" by simp
    with ta any have "\<forall>x \<in> set acc. name x \<noteq> name c" by simp
    then have "filter (\<lambda>x. name x = name c) acc = []"
      by (simp add: filter_empty_conv)
    with ac show ?thesis
      by (simp add: findClassInfos_def)
  qed
  from d b show ?thesis
    unfolding filterInvariant_def by blast
qed

lemma filterSpec_invariant:
  "filterInvariant acc \<Longrightarrow> filterInvariant (snd (filterSpec status acc cs))"
proof (induction cs arbitrary: status acc)
  case Nil
  then show ?case by simp
next
  case (Cons c cs)
  show ?case
  proof (cases "accepted acc (name c) (EntityDefinitionClassInfo.type c)")
    case True
    then show ?thesis
      using Cons.IH [OF Cons.prems] by simp
  next
    case dup: False
    show ?thesis
    proof (cases "accepted acc (name c) BaseClass
        \<or> (EntityDefinitionClassInfo.type c = BaseClass \<and> (\<exists>a \<in> set acc. name a = name c))")
      case True
      with dup show ?thesis
        using Cons.IH [OF Cons.prems] by auto
    next
      case False
      then have "filterInvariant (acc @ [c])"
        using Cons.prems dup by (intro filterInvariant_snoc) auto
      then have "filterInvariant (snd (filterSpec status (acc @ [c]) cs))"
        by (rule Cons.IH)
      with False dup show ?thesis by auto
    qed
  qed
qed

lemma filterInvariant_at_most_two:
  assumes "filterInvariant out"
  shows "length (findClassInfos out n) \<le> 2"
proof -
  let ?xs = "findClassInfos out n"
  have "distinct (map (\<lambda>c. (name c, EntityDefinitionClassInfo.type c)) ?xs)"
    using assms unfolding filterInvariant_def findClassInfos_def
    by (simp add: distinct_map_filter)
  moreover have "map (\<lambda>c. (name c, EntityDefinitionClassInfo.type c)) ?xs
      = map (\<lambda>c. (n, EntityDefinitionClassInfo.type c)) ?xs"
    by (simp add: findClassInfos_def)
  ultimately have "distinct (map (\<lambda>c. (n, EntityDefinitionClassInfo.type c)) ?xs)"
    by simp
  then have dt: "distinct (map EntityDefinitionClassInfo.type ?xs)"
    by (simp add: distinct_map inj_on_def)
  show ?thesis
  proof (cases "\<exists>c \<in> set ?xs. EntityDefinitionClassInfo.type c = BaseClass")
    case True
    then obtain c where c: "c \<in> set out" "name c = n" "EntityDefinitionClassInfo.type c = BaseClass"
      by (auto simp: findClassInfos_def)
    with assms have "findClassInfos out (name c) = [c]"
      unfolding filterInvariant_def by blast
    with c show ?thesis by simp
  next
    case False
    then have "set (map EntityDefinitionClassInfo.type ?xs) \<subseteq> {PointClass, BrushClass}"
      using EntityDefinitionClassType.exhaust by auto
    then have "card (set (map EntityDefinitionClassInfo.type ?xs)) \<le> card {PointClass, BrushClass}"
      by (intro card_mono) simp_all
    moreover from dt have "card (set (map EntityDefinitionClassInfo.type ?xs))
        = length (map EntityDefinitionClassInfo.type ?xs)"
      by (rule distinct_card)
    ultimately show ?thesis
      by simp
  qed
qed

lemma filterRedundantClasses_filterInvariant:
  "filterInvariant (snd (filterRedundantClasses status classInfos))"
proof -
  have "filterInvariant []"
    by (simp add: filterInvariant_def)
  then have "filterInvariant (snd (filterSpec status [] classInfos))"
    by (rule filterSpec_invariant)
  then show ?thesis
    by (simp add: filterRedundantClasses_filterSpec)
qed

lemma filterSpec_keeps_all:
  "distinct (map (\<lambda>c. (name c, EntityDefinitionClassInfo.type c)) (acc @ xs)) \<Longrightarrow>
   (\<forall>c \<in> set (acc @ xs). EntityDefinitionClassInfo.type c \<noteq> BaseClass) \<Longrightarrow>
   filterSpec status acc xs = (status, acc @ xs)"
proof (induction xs arbitrary: acc)
  case Nil
  show ?case by simp
next
  case (Cons c xs)
  from Cons.prems(1) have notin: "(name c, EntityDefinitionClassInfo.type c)
      \<notin> (\<lambda>c. (name c, EntityDefinitionClassInfo.type c)) ` set acc"
    by auto
  have dup: "\<not> accepted acc (name c) (EntityDefinitionClassInfo.type c)"
  proof
    assume "accepted acc (name c) (EntityDefinitionClassInfo.type c)"
    then obtain a where a: "a \<in> set acc" "name a = name c"
        "EntityDefinitionClassInfo.type a = EntityDefinitionClassInfo.type c"
      unfolding accepted_def by blast
    from a(1) have "(name c, EntityDefinitionClassInfo.type c)
        \<in> (\<lambda>c. (name c, EntityDefinitionClassInfo.type c)) ` set acc"
      by (rule rev_image_eqI) (simp add: a)
    with notin show False by simp
  qed
  from Cons.prems(2) have base: "\<not> accepted acc (name c) BaseClass"
    and tc: "EntityDefinitionClassInfo.type c \<noteq> BaseClass"
    by (auto simp: accepted_def)
  from dup base tc have "filterSpec status acc (c # xs) = filterSpec status (acc @ [c]) xs"
    by simp
  also have "\<dots> = (status, (acc @ [c]) @ xs)"
    using Cons.prems by (intro Cons.IH) simp_all
  finally show ?case by simp
qed

lemma resolveEach_no_superClasses:
  "(\<forall>c \<in> set xs. superClasses c = []) \<Longrightarrow> resolveEach cs status xs = (status, xs)"
  by (induction xs) (simp_all add: resolveInheritanceClass_def)

lemma resolveEach_pairs:
  "map (\<lambda>c. (name c, EntityDefinitionClassInfo.type c)) (snd (resolveEach cs st xs))
   = map (\<lambda>c. (name c, EntityDefinitionClassInfo.type c)) xs"
proof (induction xs arbitrary: st)
  case Nil
  show ?case by simp
next
  case (Cons c xs)
  obtain st' r where r: "resolveInheritanceClass cs st c = (st', r)"
    by (cases "resolveInheritanceClass cs st c")
  obtain st'' rs where rs: "resolveEach cs st' xs = (st'', rs)"
    by (cases "resolveEach cs st' xs")
  from resolveInheritanceClass_fixed [where cs = cs and st = st and c = c] r
    Cons.IH [of st'] rs
  show ?case by simp
qed

lemma resolveInheritance_pairs:
  "distinct (map (\<lambda>c. (name c, EntityDefinitionClassInfo.type c)) (snd (resolveInheritance status classInfos)))"
proof -
  obtain st' fs where f: "filterRedundantClasses status classInfos = (st', fs)"
    by (cases "filterRedundantClasses status classInfos")
  let ?xs = "filter (\<lambda>c. EntityDefinitionClassInfo.type c \<noteq> BaseClass) fs"
  let ?rs = "snd (resolveEach fs st' ?xs)"
  have "filterInvariant (snd (filterRedundantClasses status classInfos))"
    by (rule filterRedundantClasses_filterInvariant)
  with f have "distinct (map (\<lambda>c. (name c, EntityDefinitionClassInfo.type c)) fs)"
    by (simp add: filterInvariant_def)
  then have "distinct (map (\<lambda>c. (name c, EntityDefinitionClassInfo.type c)) ?xs)"
    by (rule distinct_map_filter)
  then have "distinct (map (\<lambda>c. (name c, EntityDefinitionClassInfo.type c)) ?rs)"
    by (simp only: resolveEach_pairs)
  then show ?thesis
    using f by (simp add: resolveInheritance_def)
qed

text \<open>
  Claim C5. \<open>filterSpec\<close> is the filter as the specification words it: going through
  the input in order, a record is dropped with a duplicate warning when a record of the
  same name and type was accepted before it; otherwise it is dropped with a redundant
  warning when a BaseClass of its name was accepted, or it is a BaseClass and some record
  of its name was accepted; otherwise it is appended to the output. The filter of the
  source, which keeps a bit mask per name, returns the same sink and the same list, and
  the list is a subsequence of the input.
\<close>

theorem filterRedundantClasses_refines:
  "filterRedundantClasses status classInfos = filterSpec status [] classInfos
   \<and> subseq (snd (filterRedundantClasses status classInfos)) classInfos"
proof -
  have eq: "filterRedundantClasses status classInfos = filterSpec status [] classInfos"
    by (rule filterRedundantClasses_filterSpec)
  moreover from filterSpec_subseq [of status "[]" classInfos]
  have "subseq (snd (filterSpec status [] classInfos)) classInfos"
    by auto
  ultimately show ?thesis by simp
qed

theorem filterRedundantClasses_refines_witness:
  "filterRedundantClasses []
     [classInfo0 PointClass ''x'' [], classInfo0 BrushClass ''x'' [], classInfo0 BaseClass ''x'' [],
      classInfo0 BaseClass ''b'' [], classInfo0 PointClass ''b'' [], classInfo0 PointClass ''x'' []]
   = ([(Warn, \<lparr>line = 0, column = None\<rparr>, ''Redundant class info '' @ quoted ''x''),
       (Warn, \<lparr>line = 0, column = None\<rparr>, ''Redundant class info '' @ quoted ''b''),
       (Warn, \<lparr>line = 0, column = None\<rparr>, ''Duplicate class info '' @ quoted ''x'')],
      [classInfo0 PointClass ''x'' [], classInfo0 BrushClass ''x'' [], classInfo0 BaseClass ''b'' []])"
  using filterRedundantClasses_refines
    [of "[]" "[classInfo0 PointClass ''x'' [], classInfo0 BrushClass ''x'' [],
              classInfo0 BaseClass ''x'' [], classInfo0 BaseClass ''b'' [],
              classInfo0 PointClass ''b'' [], classInfo0 PointClass ''x'' []]"]
  by (simp add: accepted_def classInfo0_def warn_def quoted_def)

text \<open>
  Claim C6. In the output of the filter no two records have the same name and type; a
  BaseClass of the output is the only record of the output with its name; so a name has
  at most two records, and two only as a PointClass and a BrushClass.
\<close>

theorem filterRedundantClasses_invariant:
  "distinct (map (\<lambda>c. (name c, EntityDefinitionClassInfo.type c))
      (snd (filterRedundantClasses status classInfos)))
   \<and> (\<forall>c \<in> set (snd (filterRedundantClasses status classInfos)).
         EntityDefinitionClassInfo.type c = BaseClass \<longrightarrow>
         findClassInfos (snd (filterRedundantClasses status classInfos)) (name c) = [c])
   \<and> length (findClassInfos (snd (filterRedundantClasses status classInfos)) n) \<le> 2"
proof -
  have inv: "filterInvariant (snd (filterRedundantClasses status classInfos))"
    by (rule filterRedundantClasses_filterInvariant)
  from inv filterInvariant_at_most_two [OF inv, of n] show ?thesis
    unfolding filterInvariant_def by blast
qed

theorem filterRedundantClasses_invariant_witness:
  "snd (filterRedundantClasses []
     [classInfo0 PointClass ''x'' [], classInfo0 BrushClass ''x'' [], classInfo0 BaseClass ''x'' [],
      classInfo0 BaseClass ''b'' [], classInfo0 PointClass ''b'' [], classInfo0 PointClass ''x'' []])
   = [classInfo0 PointClass ''x'' [], classInfo0 BrushClass ''x'' [], classInfo0 BaseClass ''b'' []]
   \<and> EntityDefinitionClassInfo.type (classInfo0 BaseClass ''b'' []) = BaseClass
   \<and> findClassInfos
        [classInfo0 PointClass ''x'' [], classInfo0 BrushClass ''x'' [], classInfo0 BaseClass ''b'' []]
        ''b'' = [classInfo0 BaseClass ''b'' []]
   \<and> length (findClassInfos
        [classInfo0 PointClass ''x'' [], classInfo0 BrushClass ''x'' [], classInfo0 BaseClass ''b'' []]
        ''x'') = 2"
  using filterRedundantClasses_invariant
    [of "[]" "[classInfo0 PointClass ''x'' [], classInfo0 BrushClass ''x'' [],
              classInfo0 BaseClass ''x'' [], classInfo0 BaseClass ''b'' [],
              classInfo0 PointClass ''b'' [], classInfo0 PointClass ''x'' []]" "''x''"]
  by (simp add: eval_defs)

section \<open>Facts about the materializer\<close>

lemma filterSpec_keeps_invariant:
  "filterInvariant (acc @ xs) \<Longrightarrow> filterSpec status acc xs = (status, acc @ xs)"
proof (induction xs arbitrary: acc)
  case Nil
  show ?case by simp
next
  case (Cons c xs)
  let ?all = "acc @ c # xs"
  from Cons.prems have d: "distinct (map (\<lambda>c. (name c, EntityDefinitionClassInfo.type c)) ?all)"
    and b: "\<And>x. x \<in> set ?all \<Longrightarrow> EntityDefinitionClassInfo.type x = BaseClass \<Longrightarrow>
      findClassInfos ?all (name x) = [x]"
    unfolding filterInvariant_def by blast+
  have two: "findClassInfos ?all (name c) \<noteq> [x]" if "a \<in> set acc" "name a = name c" for a x
  proof -
    from that have "filter (\<lambda>x. name x = name c) acc \<noteq> []"
      by (auto simp: filter_empty_conv)
    then have "length (filter (\<lambda>x. name x = name c) acc) \<ge> 1"
      by (cases "filter (\<lambda>x. name x = name c) acc") simp_all
    then have "length (findClassInfos ?all (name c)) \<ge> 2"
      by (simp add: findClassInfos_def)
    then show ?thesis by auto
  qed
  from d have notin: "(name c, EntityDefinitionClassInfo.type c)
      \<notin> (\<lambda>c. (name c, EntityDefinitionClassInfo.type c)) ` set acc"
    by auto
  have dup: "\<not> accepted acc (name c) (EntityDefinitionClassInfo.type c)"
  proof
    assume "accepted acc (name c) (EntityDefinitionClassInfo.type c)"
    then obtain a where a: "a \<in> set acc" "name a = name c"
        "EntityDefinitionClassInfo.type a = EntityDefinitionClassInfo.type c"
      unfolding accepted_def by blast
    from a(1) have "(name c, EntityDefinitionClassInfo.type c)
        \<in> (\<lambda>c. (name c, EntityDefinitionClassInfo.type c)) ` set acc"
      by (rule rev_image_eqI) (simp add: a)
    with notin show False by simp
  qed
  have base: "\<not> accepted acc (name c) BaseClass"
  proof
    assume "accepted acc (name c) BaseClass"
    then obtain a where a: "a \<in> set acc" "name a = name c"
        "EntityDefinitionClassInfo.type a = BaseClass"
      unfolding accepted_def by blast
    from a(1) have "a \<in> set ?all" by simp
    then have "findClassInfos ?all (name a) = [a]"
      using a(3) by (rule b)
    with two [OF a(1) a(2), of a] a(2) show False by simp
  qed
  have any: "\<not> (EntityDefinitionClassInfo.type c = BaseClass \<and> (\<exists>a \<in> set acc. name a = name c))"
  proof
    assume h: "EntityDefinitionClassInfo.type c = BaseClass \<and> (\<exists>a \<in> set acc. name a = name c)"
    then obtain a where a: "a \<in> set acc" "name a = name c" by blast
    have "c \<in> set ?all" by simp
    then have "findClassInfos ?all (name c) = [c]"
      using h by (intro b) simp_all
    with two [OF a, of c] show False by simp
  qed
  from dup base any have "filterSpec status acc (c # xs) = filterSpec status (acc @ [c]) xs"
    by auto
  also have "\<dots> = (status, (acc @ [c]) @ xs)"
    using Cons.prems by (intro Cons.IH) simp
  finally show ?case by simp
qed

lemma filterRedundantClasses_again:
  "filterRedundantClasses status' (snd (filterRedundantClasses status classInfos))
   = (status', snd (filterRedundantClasses status classInfos))"
proof -
  let ?fs = "snd (filterRedundantClasses status classInfos)"
  have "filterInvariant ([] @ ?fs)"
    using filterRedundantClasses_filterInvariant [of status classInfos] by simp
  then have "filterSpec status' [] ?fs = (status', [] @ ?fs)"
    by (rule filterSpec_keeps_invariant)
  then show ?thesis
    by (simp add: filterRedundantClasses_filterSpec)
qed

lemma createDefinitions_eq:
  "createDefinitions status classInfos defaultEntityColor =
     (case resolveInheritance status classInfos of
        (status', resolvedClasses) \<Rightarrow>
          (status',
           List.map_filter (\<lambda>classInfo. createDefinition classInfo defaultEntityColor)
             resolvedClasses))"
proof -
  obtain st1 fs where f: "filterRedundantClasses status classInfos = (st1, fs)"
    by (cases "filterRedundantClasses status classInfos")
  have "filterRedundantClasses st1 fs = (st1, fs)"
    using filterRedundantClasses_again [of st1 status classInfos] f by simp
  then have "resolveInheritance st1 fs = resolveInheritance status classInfos"
    using f by (simp add: resolveInheritance_def)
  with f show ?thesis
    by (simp add: createDefinitions_def)
qed

lemma createDefinitions_all:
  "map Some (snd (createDefinitions st cs col))
     = map (\<lambda>r. createDefinition r col) (snd (resolveInheritance st cs))"
proof -
  obtain st' rs where r: "resolveInheritance st cs = (st', rs)"
    by (cases "resolveInheritance st cs")
  have "\<And>x. x \<in> set rs \<Longrightarrow> createDefinition x col \<noteq> None"
    using resolveInheritance_types [of _ st cs] r
    by (simp add: createDefinition_None_iff)
  then show ?thesis
    using r by (simp add: createDefinitions_eq map_filter_all_Some)
qed













section \<open>Materialization (C7, C10)\<close>

text \<open>
  Claim C10. A class of type BrushClass is materialized from its name, its colour (or the
  default colour), its description (or the empty string) and its property definitions
  only: whatever size, model definition and decal definition the record holds, the
  definition is the same.
\<close>

theorem createDefinition_brush:
  "EntityDefinitionClassInfo.type classInfo = BrushClass \<Longrightarrow>
   createDefinition classInfo defaultEntityColor =
     Some (BrushEntityDefinition (name classInfo)
       (case color classInfo of Some c \<Rightarrow> c | None \<Rightarrow> defaultEntityColor)
       (case description classInfo of Some d \<Rightarrow> d | None \<Rightarrow> [])
       (propertyDefinitions classInfo))
   \<and> createDefinition
         (classInfo\<lparr>size_box := s, modelDefinition := m, decalDefinition := dc\<rparr>)
         defaultEntityColor
       = createDefinition classInfo defaultEntityColor"
  by (simp add: createDefinition_def)

theorem createDefinition_brush_witness:
  "EntityDefinitionClassInfo.type (classInfo0 BrushClass ''b'' []) = BrushClass
   \<and> createDefinition
        ((classInfo0 BrushClass ''b'' [])
           \<lparr>size_box := Some (bbox3d_fill (- 16) 16), modelDefinition := Some (ModelDefinition [''m'']),
            decalDefinition := Some (DecalDefinition [''d''])\<rparr>) (Color 1 0 0 1)
      = Some (BrushEntityDefinition ''b'' (Color 1 0 0 1) [] [])"
  using createDefinition_brush
    [where classInfo = "classInfo0 BrushClass ''b'' []" and defaultEntityColor = "Color 1 0 0 1"
       and s = "Some (bbox3d_fill (- 16) 16)" and m = "Some (ModelDefinition [''m''])"
       and dc = "Some (DecalDefinition [''d''])"]
  by (simp add: classInfo0_def)

text \<open>
  Claim C7, as stated, promises the bounding box of 8 units to every resolved class with
  no colour, size and description. A BrushClass is materialized without any bounding box:
  the class below has none of the three set, and its definition is a brush definition
  that carries no bounds.
\<close>

theorem createDefinition_brush_box_counterexample:
  "color (classInfo0 BrushClass ''b'' []) = None
   \<and> size_box (classInfo0 BrushClass ''b'' []) = None
   \<and> description (classInfo0 BrushClass ''b'' []) = None
   \<and> createDefinition (classInfo0 BrushClass ''b'' []) (Color 1 0 0 1)
       = Some (BrushEntityDefinition ''b'' (Color 1 0 0 1) [] [])
   \<and> map_option definitionBounds (createDefinition (classInfo0 BrushClass ''b'' []) (Color 1 0 0 1))
       \<noteq> Some (Some DefaultSize)"
  by (simp add: classInfo0_def createDefinition_def)

text \<open>
  Claim C7, amended. \<open>createDefinition\<close> yields nothing exactly for a BaseClass; no
  class that \<open>resolveInheritance\<close> returns is a BaseClass, and \<open>createDefinitions\<close>
  returns one definition for each of them, in order. A resolved PointClass with no colour,
  size and description is materialized with the default entity colour, the box from -8
  to 8 on every axis and the empty description; a resolved BrushClass with no colour and
  no description is materialized with the default entity colour and the empty
  description (it has no bounding box).
\<close>

theorem createDefinitions_defaults:
  "(createDefinition r defaultEntityColor = None \<longleftrightarrow>
      EntityDefinitionClassInfo.type r = BaseClass)
   \<and> (\<forall>c \<in> set (snd (resolveInheritance status classInfos)).
        EntityDefinitionClassInfo.type c \<noteq> BaseClass)
   \<and> map Some (snd (createDefinitions status classInfos defaultEntityColor))
       = map (\<lambda>c. createDefinition c defaultEntityColor)
           (snd (resolveInheritance status classInfos))
   \<and> (EntityDefinitionClassInfo.type r = PointClass \<and> color r = None \<and> size_box r = None
        \<and> description r = None \<longrightarrow>
      createDefinition r defaultEntityColor =
        Some (PointEntityDefinition (name r) defaultEntityColor
          (bbox3d (vec3d (- 8) (- 8) (- 8)) (vec3d 8 8 8)) [] (propertyDefinitions r)
          (case modelDefinition r of Some m \<Rightarrow> m | None \<Rightarrow> ModelDefinition [])
          (case decalDefinition r of Some d \<Rightarrow> d | None \<Rightarrow> DecalDefinition [])))
   \<and> (EntityDefinitionClassInfo.type r = BrushClass \<and> color r = None \<and> description r = None \<longrightarrow>
      createDefinition r defaultEntityColor =
        Some (BrushEntityDefinition (name r) defaultEntityColor [] (propertyDefinitions r)))"
proof (intro conjI)
  show "createDefinition r defaultEntityColor = None \<longleftrightarrow>
      EntityDefinitionClassInfo.type r = BaseClass"
    by (rule createDefinition_None_iff)
  show "\<forall>c \<in> set (snd (resolveInheritance status classInfos)).
        EntityDefinitionClassInfo.type c \<noteq> BaseClass"
    using resolveInheritance_types by blast
  show "map Some (snd (createDefinitions status classInfos defaultEntityColor))
       = map (\<lambda>c. createDefinition c defaultEntityColor)
           (snd (resolveInheritance status classInfos))"
    by (rule createDefinitions_all)
qed (simp_all add: createDefinition_def DefaultSize_def bbox3d_fill_def)

theorem createDefinitions_defaults_witness:
  "EntityDefinitionClassInfo.type (classInfo0 PointClass ''p'' [''a'']) = PointClass
   \<and> createDefinition (classInfo0 PointClass ''p'' [''a'']) (Color 1 0 0 1) =
       Some (PointEntityDefinition ''p'' (Color 1 0 0 1)
         (bbox3d (vec3d (- 8) (- 8) (- 8)) (vec3d 8 8 8)) [] [] (ModelDefinition [])
         (DecalDefinition []))
   \<and> snd (resolveInheritance []
          [classInfo0 BaseClass ''a'' [], classInfo0 PointClass ''p'' [''a'']])
       = [classInfo0 PointClass ''p'' [''a'']]
   \<and> snd (createDefinitions []
          [classInfo0 BaseClass ''a'' [], classInfo0 PointClass ''p'' [''a'']] (Color 1 0 0 1))
       = [PointEntityDefinition ''p'' (Color 1 0 0 1)
           (bbox3d (vec3d (- 8) (- 8) (- 8)) (vec3d 8 8 8)) [] [] (ModelDefinition [])
           (DecalDefinition [])]"
  using createDefinitions_defaults
    [where r = "classInfo0 PointClass ''p'' [''a'']" and defaultEntityColor = "Color 1 0 0 1"
       and status = "[]"
       and classInfos = "[classInfo0 BaseClass ''a'' [], classInfo0 PointClass ''p'' [''a'']]"]
  by (simp add: eval_defs)

section \<open>Failure and recovery (C9)\<close>




section \<open>Idempotence (C8)\<close>

text \<open>
  Claim C8. Resolving the list that \<open>resolveInheritance\<close> returned, with the
  super-class list of every record cleared, returns that list and reports nothing. This
  holds for every class list, so in particular for those with no name collisions and no
  cycles.
\<close>

theorem resolveInheritance_idempotent:
  "resolveInheritance status'
     (map clearSuperClasses (snd (resolveInheritance status classInfos)))
   = (status', map clearSuperClasses (snd (resolveInheritance status classInfos)))"
proof -
  let ?rs = "map clearSuperClasses (snd (resolveInheritance status classInfos))"
  have pairs: "map (\<lambda>c. (name c, EntityDefinitionClassInfo.type c)) ?rs
      = map (\<lambda>c. (name c, EntityDefinitionClassInfo.type c)) (snd (resolveInheritance status classInfos))"
    by (simp add: clearSuperClasses_def comp_def)
  have d: "distinct (map (\<lambda>c. (name c, EntityDefinitionClassInfo.type c)) ([] @ ?rs))"
    unfolding append_Nil pairs by (rule resolveInheritance_pairs)
  have nb: "\<forall>c \<in> set ([] @ ?rs). EntityDefinitionClassInfo.type c \<noteq> BaseClass"
    using resolveInheritance_types [of _ status classInfos]
    by (auto simp: clearSuperClasses_def)
  have "filterRedundantClasses status' ?rs = filterSpec status' [] ?rs"
    by (rule filterRedundantClasses_filterSpec)
  also have "\<dots> = (status', [] @ ?rs)"
    using d nb by (rule filterSpec_keeps_all)
  finally have f: "filterRedundantClasses status' ?rs = (status', ?rs)"
    by simp
  from nb have keep: "filter (\<lambda>c. EntityDefinitionClassInfo.type c \<noteq> BaseClass) ?rs = ?rs"
    by (simp add: filter_id_conv)
  have "\<forall>c \<in> set ?rs. superClasses c = []"
    by (simp add: clearSuperClasses_def)
  then have "resolveEach ?rs status' ?rs = (status', ?rs)"
    by (rule resolveEach_no_superClasses)
  with f keep show ?thesis
    by (simp add: resolveInheritance_def)
qed

section \<open>Property merge (C3)\<close>

lemma addOption_same:
  "addOption r (value f) (FlagsPropertyOption.shortDescription f)
     (FlagsPropertyOption.longDescription f) (isDefault f) = r\<lparr>options := options r @ [f]\<rparr>"
  by (simp add: addOption_def)

lemma mergeFlag_step:
  "mergeFlag p q r i =
     r\<lparr>options := options r @
        (case (case option p (2 ^ i) of Some f \<Rightarrow> Some f | None \<Rightarrow> option q (2 ^ i)) of
           Some f \<Rightarrow> [f] | None \<Rightarrow> [])\<rparr>"
  by (cases "option p (2 ^ i)"; cases "option q (2 ^ i)")
    (simp_all add: mergeFlag_def Let_def addOption_same push_bit_eq_mult)

lemma foldl_mergeFlag:
  "foldl (mergeFlag p q) r is =
     r\<lparr>options := options r @
        List.map_filter
          (\<lambda>i. case option p (2 ^ i) of Some f \<Rightarrow> Some f | None \<Rightarrow> option q (2 ^ i)) is\<rparr>"
proof (induction "is" arbitrary: r)
  case Nil
  show ?case by (simp add: List.map_filter_simps)
next
  case (Cons i "is")
  let ?g = "\<lambda>i. case option p (2 ^ i) of Some f \<Rightarrow> Some f | None \<Rightarrow> option q (2 ^ i)"
  have "foldl (mergeFlag p q) r (i # is) = foldl (mergeFlag p q) (mergeFlag p q r i) is"
    by simp
  also have "\<dots> = (mergeFlag p q r i)\<lparr>options := options (mergeFlag p q r i) @
      List.map_filter ?g is\<rparr>"
    by (rule Cons.IH)
  also have "\<dots> = r\<lparr>options := options r @ List.map_filter ?g (i # is)\<rparr>"
    by (cases "?g i") (simp_all add: mergeFlag_step List.map_filter_simps)
  finally show ?case .
qed

lemma mergeAttributes_eq:
  "mergeAttributes p q =
     (if PropertyDefinition.type q = FlagsProperty \<and> PropertyDefinition.type p = FlagsProperty
         \<and> key q = Spawnflags \<and> key p = Spawnflags
      then Some ((newFlagsPropertyDefinition Spawnflags)\<lparr>options := mergedOptions p q\<rparr>)
      else None)"
  by (simp add: mergeAttributes_def foldl_mergeFlag mergedOptions_def newFlagsPropertyDefinition_def)

lemma inheritProperty_keys:
  "key ` set (inheritProperty ps q) = insert (key q) (key ` set ps)"
  by (induction ps) (auto simp: mergeAttributes_eq newFlagsPropertyDefinition_def)

lemma inheritProperty_absent:
  "key q \<notin> key ` set ps \<Longrightarrow> inheritProperty ps q = ps @ [q]"
  by (induction ps) auto

lemma inheritProperty_present:
  "distinct (map key ps) \<Longrightarrow> key q \<in> key ` set ps \<Longrightarrow>
   inheritProperty ps q = map (inheritedSlot [q]) ps"
proof (induction ps)
  case Nil
  then show ?case by simp
next
  case (Cons p ps)
  show ?case
  proof (cases "key p = key q")
    case True
    with Cons.prems(1) have notin: "key q \<notin> key ` set ps"
      by simp
    have "key x \<noteq> key q" if "x \<in> set ps" for x
    proof -
      from that have "key x \<in> key ` set ps" by (rule imageI)
      with notin show ?thesis by auto
    qed
    then have tl: "map (inheritedSlot [q]) ps = ps"
      by (induction ps) (auto simp: inheritedSlot_def)
    from True have hd: "inheritProperty (p # ps) q
        = (case mergeAttributes p q of Some m \<Rightarrow> m | None \<Rightarrow> p) # ps"
      by (cases "mergeAttributes p q") simp_all
    from True have slot: "inheritedSlot [q] p
        = (case mergeAttributes p q of Some m \<Rightarrow> m | None \<Rightarrow> p)"
      by (auto simp: inheritedSlot_def mergeAttributes_eq)
    show ?thesis
      unfolding hd by (simp only: list.map tl slot)
  next
    case False
    with Cons show ?thesis
      by (auto simp: inheritedSlot_def)
  qed
qed

lemma inheritedSlot_key: "key (inheritedSlot qs p) = key p"
  by (cases "find (\<lambda>q. key q = key p) qs")
    (simp_all add: inheritedSlot_def newFlagsPropertyDefinition_def)

lemma inheritedSlot_none: "key p \<notin> key ` set qs \<Longrightarrow> inheritedSlot qs p = p"
proof -
  assume notin: "key p \<notin> key ` set qs"
  have "key q \<noteq> key p" if "q \<in> set qs" for q
  proof -
    from that have "key q \<in> key ` set qs" by (rule imageI)
    with notin show ?thesis by auto
  qed
  then have "find (\<lambda>q. key q = key p) qs = None"
    by (simp add: find_None_iff)
  then show ?thesis
    by (simp add: inheritedSlot_def)
qed

lemma inheritedSlot_skip: "key p \<noteq> key q \<Longrightarrow> inheritedSlot (q # qs) p = inheritedSlot qs p"
  by (simp add: inheritedSlot_def)

lemma inheritedSlot_first:
  "key p = key q \<Longrightarrow> inheritedSlot (q # qs) p = inheritedSlot [q] p"
  by (simp add: inheritedSlot_def)

lemma inheritedSlot_compose:
  assumes "key q \<notin> key ` set qs"
  shows "inheritedSlot qs (inheritedSlot [q] p) = inheritedSlot (q # qs) p"
proof (cases "key p = key q")
  case True
  then have "key (inheritedSlot [q] p) \<notin> key ` set qs"
    using assms by (simp add: inheritedSlot_key)
  then have "inheritedSlot qs (inheritedSlot [q] p) = inheritedSlot [q] p"
    by (rule inheritedSlot_none)
  also from True have "inheritedSlot [q] p = inheritedSlot (q # qs) p"
    by (rule inheritedSlot_first [symmetric])
  finally show ?thesis .
next
  case False
  then have "inheritedSlot [q] p = p"
    by (simp add: inheritedSlot_def)
  with False show ?thesis
    by (simp add: inheritedSlot_skip)
qed

lemma map_inheritedSlot_keys: "map key (map (inheritedSlot qs) ps) = map key ps"
  by (simp add: inheritedSlot_key)

lemma map_inheritedSlot_compose:
  "key q \<notin> key ` set qs \<Longrightarrow>
   map (inheritedSlot qs) (map (inheritedSlot [q]) ps) = map (inheritedSlot (q # qs)) ps"
  by (simp add: inheritedSlot_compose)

lemma map_inheritedSlot_skip:
  "key q \<notin> key ` set ps \<Longrightarrow> map (inheritedSlot (q # qs)) ps = map (inheritedSlot qs) ps"
proof (induction ps)
  case Nil
  show ?case by simp
next
  case (Cons p ps)
  then have "key p \<noteq> key q" by auto
  then have "inheritedSlot (q # qs) p = inheritedSlot qs p"
    by (rule inheritedSlot_skip)
  moreover from Cons have "map (inheritedSlot (q # qs)) ps = map (inheritedSlot qs) ps"
    by simp
  ultimately show ?case by simp
qed

lemma filter_absent_snoc:
  "key q \<notin> key ` set qs \<Longrightarrow>
   filter (\<lambda>x. key x \<notin> key ` set (ps @ [q])) qs = filter (\<lambda>x. key x \<notin> key ` set ps) qs"
proof (induction qs)
  case Nil
  show ?case by simp
next
  case (Cons x qs)
  then have "key x \<noteq> key q" by auto
  moreover from Cons have "filter (\<lambda>x. key x \<notin> key ` set (ps @ [q])) qs
      = filter (\<lambda>x. key x \<notin> key ` set ps) qs"
    by simp
  ultimately show ?case by simp
qed

lemma distinct_append_filter_absent:
  "distinct (map f ps) \<Longrightarrow> distinct (map f qs) \<Longrightarrow>
   distinct (map f ps @ map f (filter (\<lambda>q. f q \<notin> f ` set ps) qs))"
proof -
  assume ps: "distinct (map f ps)" and qs: "distinct (map f qs)"
  have "f q \<noteq> f p" if "p \<in> set ps" and "f q \<notin> f ` set ps" for p q
  proof
    assume "f q = f p"
    with that(1) have "f q \<in> f ` set ps" by (rule rev_image_eqI)
    with that(2) show False by contradiction
  qed
  then have "set (map f ps) \<inter> set (map f (filter (\<lambda>q. f q \<notin> f ` set ps) qs)) = {}"
    by fastforce
  moreover from qs have "distinct (map f (filter (\<lambda>q. f q \<notin> f ` set ps) qs))"
    by (rule distinct_map_filter)
  ultimately show ?thesis
    using ps by simp
qed

lemma foldl_inheritProperty:
  "distinct (map key ps) \<Longrightarrow> distinct (map key qs) \<Longrightarrow>
   foldl inheritProperty ps qs =
     map (inheritedSlot qs) ps @ filter (\<lambda>q. key q \<notin> key ` set ps) qs"
proof (induction qs arbitrary: ps)
  case Nil
  have "map (inheritedSlot []) ps = ps"
    by (induction ps) (simp_all add: inheritedSlot_def)
  then show ?case by simp
next
  case (Cons q qs)
  from Cons.prems(2) have dq: "distinct (map key qs)" and nq: "key q \<notin> key ` set qs"
    by simp_all
  show ?case
  proof (cases "key q \<in> key ` set ps")
    case True
    let ?ps' = "map (inheritedSlot [q]) ps"
    from Cons.prems(1) True have step: "inheritProperty ps q = ?ps'"
      by (rule inheritProperty_present)
    have keys: "map key ?ps' = map key ps"
      by (rule map_inheritedSlot_keys)
    then have "set (map key ?ps') = set (map key ps)"
      by (rule arg_cong)
    then have keyset: "key ` set ?ps' = key ` set ps"
      by (simp only: set_map)
    from Cons.prems(1) have "distinct (map key ?ps')"
      unfolding keys .
    then have "foldl inheritProperty ?ps' qs =
        map (inheritedSlot qs) ?ps' @ filter (\<lambda>x. key x \<notin> key ` set ?ps') qs"
      using dq by (rule Cons.IH)
    then have "foldl inheritProperty ?ps' qs =
        map (inheritedSlot (q # qs)) ps @ filter (\<lambda>x. key x \<notin> key ` set ps) qs"
      unfolding keyset map_inheritedSlot_compose [OF nq] .
    moreover have "filter (\<lambda>x. key x \<notin> key ` set ps) (q # qs)
        = filter (\<lambda>x. key x \<notin> key ` set ps) qs"
      using True by simp
    moreover have "foldl inheritProperty ps (q # qs) = foldl inheritProperty ?ps' qs"
      unfolding foldl_Cons step ..
    ultimately show ?thesis
      by (simp only:)
  next
    case False
    then have step: "inheritProperty ps q = ps @ [q]"
      by (rule inheritProperty_absent)
    from Cons.prems(1) False have "distinct (map key (ps @ [q]))"
      by simp
    then have "foldl inheritProperty (ps @ [q]) qs =
        map (inheritedSlot qs) (ps @ [q]) @ filter (\<lambda>x. key x \<notin> key ` set (ps @ [q])) qs"
      using dq by (rule Cons.IH)
    then have "foldl inheritProperty (ps @ [q]) qs =
        map (inheritedSlot qs) (ps @ [q]) @ filter (\<lambda>x. key x \<notin> key ` set ps) qs"
      unfolding filter_absent_snoc [OF nq] .
    moreover have "map (inheritedSlot qs) (ps @ [q]) = map (inheritedSlot (q # qs)) ps @ [q]"
      unfolding map_append map_inheritedSlot_skip [OF False]
      by (simp only: list.map inheritedSlot_none [OF nq])
    moreover have "filter (\<lambda>x. key x \<notin> key ` set ps) (q # qs)
        = q # filter (\<lambda>x. key x \<notin> key ` set ps) qs"
      using False by simp
    moreover have "foldl inheritProperty ps (q # qs) = foldl inheritProperty (ps @ [q]) qs"
      unfolding foldl_Cons step ..
    ultimately show ?thesis
      by (simp only: append_assoc append_Cons append_Nil)
  qed
qed

lemma bits24:
  "[0..<24] = [0, 1, 2, 3, 4, 5, 6, 7, 8, 9, 10, 11, 12, 13, 14, 15, 16, 17, 18, 19, 20, 21, 22, 23]"
  by code_simp

text \<open>
  Claim C3. When one super class is merged into the inheriting class, and the keys are
  unique within each of the two property lists (the data model's invariant): the property
  list of the inheriting class becomes its own properties, each in its place, followed by
  the super-class properties whose key the inheriting class does not have, in the super
  class's order. A property of the inheriting class whose key the super class has too is
  replaced by the flags definition with the per-bit merge over the 24 bits (for each bit
  the inheriting class's option when it has one, else the super class's) when both are
  flags keyed spawnflags, and stays as it is in every other case. The keys of the merged
  list are unique again, so the same holds for every later merge of the walk.
\<close>

theorem inheritAttributes_properties:
  assumes "distinct (map key (propertyDefinitions inheritingClass))"
    and "distinct (map key (propertyDefinitions superClass))"
  shows "propertyDefinitions (inheritAttributes inheritingClass superClass) =
     map (inheritedSlot (propertyDefinitions superClass)) (propertyDefinitions inheritingClass)
     @ filter (\<lambda>q. key q \<notin> key ` set (propertyDefinitions inheritingClass))
         (propertyDefinitions superClass)
     \<and> distinct (map key (propertyDefinitions (inheritAttributes inheritingClass superClass)))"
proof -
  let ?ps = "propertyDefinitions inheritingClass" and ?qs = "propertyDefinitions superClass"
  let ?new = "filter (\<lambda>q. key q \<notin> key ` set ?ps) ?qs"
  have eq: "propertyDefinitions (inheritAttributes inheritingClass superClass) =
      map (inheritedSlot ?qs) ?ps @ ?new"
    using foldl_inheritProperty [OF assms] by (simp add: inheritAttributes_def)
  have "distinct (map key ?ps @ map key ?new)"
    using assms by (rule distinct_append_filter_absent)
  then have "distinct (map key (map (inheritedSlot ?qs) ?ps @ ?new))"
    unfolding map_append map_inheritedSlot_keys .
  with eq show ?thesis
    by (simp only:)
qed

theorem inheritAttributes_properties_witness:
  "distinct (map key [flagsProperty ''spawnflags'' [flagOption 1 ''Option A'']])
   \<and> distinct (map key [flagsProperty ''spawnflags''
                            [flagOption 1 ''Old A'', flagOption 2 ''Option B''],
                          stringProperty ''target''])
   \<and> propertyDefinitions
        (inheritAttributes
           ((classInfo0 PointClass ''x'' [''y''])
              \<lparr>propertyDefinitions := [flagsProperty ''spawnflags'' [flagOption 1 ''Option A'']]\<rparr>)
           ((classInfo0 BaseClass ''y'' [])
              \<lparr>propertyDefinitions :=
                 [flagsProperty ''spawnflags'' [flagOption 1 ''Old A'', flagOption 2 ''Option B''],
                  stringProperty ''target'']\<rparr>))
      = [flagsProperty ''spawnflags'' [flagOption 1 ''Option A'', flagOption 2 ''Option B''],
         stringProperty ''target'']"
  using inheritAttributes_properties
    [of "(classInfo0 PointClass ''x'' [''y''])
              \<lparr>propertyDefinitions := [flagsProperty ''spawnflags'' [flagOption 1 ''Option A'']]\<rparr>"
        "(classInfo0 BaseClass ''y'' [])
              \<lparr>propertyDefinitions :=
                 [flagsProperty ''spawnflags'' [flagOption 1 ''Old A'', flagOption 2 ''Option B''],
                  stringProperty ''target'']\<rparr>"]
  by (simp add: classInfo0_def flagsProperty_def flagOption_def stringProperty_def
      inheritedSlot_def mergedOptions_def bits24 option_def Spawnflags_def
      newFlagsPropertyDefinition_def List.map_filter_simps)

end
